theory Spec2Isabelle
  imports Main "HOL-Library.AList"
begin

section \<open>The setups tree\<close>

text \<open>
  accSetupSync.py works on the directory tree \<^verbatim>\<open>Root/Car/Track/setupFile\<close> through
  \<^verbatim>\<open>os\<close>, \<^verbatim>\<open>os.path\<close> and \<^verbatim>\<open>shutil\<close>. A path is the list of its components below
  the filesystem root (watchdog reports absolute, normalised paths, and \<^verbatim>\<open>parse_args\<close>
  makes the root absolute), a file's contents are its bytes, and the tree is an association
  list from paths to nodes: its order is the order in which \<^verbatim>\<open>os.listdir\<close> enumerates,
  which the operating system leaves unspecified. Names are compared as they are written.
  Links, permissions and a full disk are not modelled, and the calls to \<^verbatim>\<open>logging\<close> are
  left out: they change nothing that the program reads.
\<close>

type_synonym path = "string list"

type_synonym bytes = "char list"

datatype node = File bytes | Dir

text \<open>The exceptions that the modelled calls raise.\<close>

datatype error =
    FileNotFoundError
  | FileExistsError
  | IsADirectoryError
  | NotADirectoryError
  | SameFileError
  | ShutilError
  | UnboundLocalError

text \<open>Every call that changes the tree is written to a journal, in the order of the calls.\<close>

datatype fs_op =
    Mkdir path
  | CopyFile path path
  | Remove path
  | Move path path

record world =
  files :: "(path \<times> node) list"
  journal :: "fs_op list"

type_synonym 'a outcome = "(error + 'a) \<times> world"

definition ACC_TRACK_FOLDERS :: "string list" where
  "ACC_TRACK_FOLDERS =
    [''Barcelona'', ''brands_hatch'', ''Hungaroring'', ''Kyalami'', ''Laguna_Seca'',
     ''misano'', ''monza'', ''mount_panorama'', ''nurburgring'', ''Paul_Ricard'',
     ''Silverstone'', ''Spa'', ''Suzuka'', ''Zandvoort'', ''Zolder'']"

subsection \<open>os.path\<close>

text \<open>
  \<^verbatim>\<open>os.path.split\<close> gives the head and the last component; at the root the last
  component is the empty string and the head is the root again.
\<close>

definition os_path_split :: "path \<Rightarrow> path \<times> string" where
  "os_path_split p = (if p = [] then ([], []) else (butlast p, last p))"

definition dirname :: "path \<Rightarrow> path" where
  "dirname p = fst (os_path_split p)"

definition basename :: "path \<Rightarrow> string" where
  "basename p = snd (os_path_split p)"

definition os_path_join :: "path \<Rightarrow> string list \<Rightarrow> path" where
  "os_path_join p cs = p @ cs"

definition lookup :: "world \<Rightarrow> path \<Rightarrow> node option" where
  "lookup w p = map_of (files w) p"

definition isfile :: "world \<Rightarrow> path \<Rightarrow> bool" where
  "isfile w p = (case lookup w p of Some (File b) \<Rightarrow> True | _ \<Rightarrow> False)"

definition isdir :: "world \<Rightarrow> path \<Rightarrow> bool" where
  "isdir w p = (case lookup w p of Some Dir \<Rightarrow> True | _ \<Rightarrow> False)"

definition exists_path :: "world \<Rightarrow> path \<Rightarrow> bool" where
  "exists_path w p = (lookup w p \<noteq> None)"

subsection \<open>os and shutil\<close>

definition children :: "path \<Rightarrow> (path \<times> node) list \<Rightarrow> string list" where
  "children p fs = map (\<lambda>e. last (fst e)) (filter (\<lambda>e. fst e \<noteq> [] \<and> butlast (fst e) = p) fs)"

definition listdir :: "path \<Rightarrow> world \<Rightarrow> error + string list" where
  "listdir p w =
    (case lookup w p of
       None \<Rightarrow> Inl FileNotFoundError
     | Some (File b) \<Rightarrow> Inl NotADirectoryError
     | Some Dir \<Rightarrow> Inr (children p (files w)))"

text \<open>The directory that has to exist for an entry to be created at a path.\<close>

definition parent_error :: "world \<Rightarrow> path \<Rightarrow> error option" where
  "parent_error w p =
    (case lookup w (dirname p) of
       None \<Rightarrow> Some FileNotFoundError
     | Some (File b) \<Rightarrow> Some NotADirectoryError
     | Some Dir \<Rightarrow> None)"

definition os_mkdir :: "path \<Rightarrow> world \<Rightarrow> unit outcome" where
  "os_mkdir p w =
    (case parent_error w p of
       Some e \<Rightarrow> (Inl e, w)
     | None \<Rightarrow>
        if exists_path w p then (Inl FileExistsError, w)
        else (Inr (), w\<lparr>files := AList.update p Dir (files w),
                         journal := journal w @ [Mkdir p]\<rparr>))"

definition os_remove :: "path \<Rightarrow> world \<Rightarrow> unit outcome" where
  "os_remove p w =
    (case lookup w p of
       None \<Rightarrow> (Inl FileNotFoundError, w)
     | Some Dir \<Rightarrow> (Inl IsADirectoryError, w)
     | Some (File b) \<Rightarrow>
        (Inr (), w\<lparr>files := AList.delete p (files w),
                    journal := journal w @ [Remove p]\<rparr>))"

text \<open>
  \<^verbatim>\<open>shutil.copyfile\<close> refuses to copy a file onto itself, reads the source, and opens
  the destination for writing, which truncates a file that is there.
\<close>

definition shutil_copyfile :: "path \<Rightarrow> path \<Rightarrow> world \<Rightarrow> unit outcome" where
  "shutil_copyfile src dst w =
    (if src = dst \<and> exists_path w src then (Inl SameFileError, w)
     else case lookup w src of
       None \<Rightarrow> (Inl FileNotFoundError, w)
     | Some Dir \<Rightarrow> (Inl IsADirectoryError, w)
     | Some (File b) \<Rightarrow>
        (case parent_error w dst of
           Some e \<Rightarrow> (Inl e, w)
         | None \<Rightarrow>
            if isdir w dst then (Inl IsADirectoryError, w)
            else (Inr (), w\<lparr>files := AList.update dst (File b) (files w),
                             journal := journal w @ [CopyFile src dst]\<rparr>)))"

text \<open>\<^verbatim>\<open>shutil.copy\<close> copies into a destination that is a directory (mode bits are not modelled).\<close>

definition shutil_copy :: "path \<Rightarrow> path \<Rightarrow> world \<Rightarrow> unit outcome" where
  "shutil_copy src dst w =
    (let dst' = (if isdir w dst then os_path_join dst [basename src] else dst)
     in shutil_copyfile src dst' w)"

text \<open>
  \<^verbatim>\<open>shutil.move\<close> moves into a destination that is a directory, unless the name is taken
  there; otherwise it renames, replacing a file at the destination. A directory is moved
  with everything below it.
\<close>

definition shutil_move :: "path \<Rightarrow> path \<Rightarrow> world \<Rightarrow> unit outcome" where
  "shutil_move src dst w =
    (let real_dst = (if isdir w dst \<and> src \<noteq> dst then os_path_join dst [basename src] else dst)
     in if isdir w dst \<and> src \<noteq> dst \<and> exists_path w real_dst then (Inl ShutilError, w)
        else case lookup w src of
          None \<Rightarrow> (Inl FileNotFoundError, w)
        | Some (File b) \<Rightarrow>
           (case parent_error w real_dst of
              Some e \<Rightarrow> (Inl e, w)
            | None \<Rightarrow>
               (Inr (), w\<lparr>files := AList.update real_dst (File b) (AList.delete src (files w)),
                           journal := journal w @ [Move src real_dst]\<rparr>))
        | Some Dir \<Rightarrow>
           if src = real_dst then (Inr (), w\<lparr>journal := journal w @ [Move src real_dst]\<rparr>)
           else if take (length src) real_dst = src then (Inl ShutilError, w)
           else if exists_path w real_dst then (Inl FileExistsError, w)
           else (case parent_error w real_dst of
              Some e \<Rightarrow> (Inl e, w)
            | None \<Rightarrow>
               (Inr (), w\<lparr>files := map (\<lambda>e. if take (length src) (fst e) = src
                                               then (real_dst @ drop (length src) (fst e), snd e)
                                               else e) (files w),
                           journal := journal w @ [Move src real_dst]\<rparr>)))"

subsection \<open>Loops\<close>

text \<open>A \<^verbatim>\<open>for\<close> loop whose body may raise: the first exception ends the loop.\<close>

fun for_each :: "('a \<Rightarrow> world \<Rightarrow> unit outcome) \<Rightarrow> 'a list \<Rightarrow> world \<Rightarrow> unit outcome" where
  "for_each body [] w = (Inr (), w)"
| "for_each body (x # xs) w =
    (case body x w of
       (Inl e, w') \<Rightarrow> (Inl e, w')
     | (Inr u, w') \<Rightarrow> for_each body xs w')"

section \<open>The program\<close>

subsection \<open>list_dir and create_track_dirs\<close>

definition list_dir :: "path \<Rightarrow> bool \<Rightarrow> bool \<Rightarrow> world \<Rightarrow> error + string list" where
  "list_dir p want_files want_dirs w =
    (case listdir p w of
       Inl e \<Rightarrow> Inl e
     | Inr names \<Rightarrow>
        Inr (filter (\<lambda>f. want_files \<and> isfile w (os_path_join p [f])
                        \<or> want_dirs \<and> isdir w (os_path_join p [f])) names))"

definition create_track_dirs :: "path \<Rightarrow> world \<Rightarrow> unit outcome" where
  "create_track_dirs carDir w =
    for_each (\<lambda>track w.
        let targetPath = os_path_join carDir [track]
        in if \<not> isdir w targetPath then os_mkdir targetPath w else (Inr (), w))
      ACC_TRACK_FOLDERS w"

subsection \<open>PausingObserver\<close>

text \<open>
  A change event as \<^verbatim>\<open>on_modified\<close> reads it: the path and whether it is a directory.
  \<^verbatim>\<open>EventHandler\<close> overrides \<^verbatim>\<open>on_modified\<close> only, so the events that reach its code are
  the modification events. The observer's own state is the pause flag (unset until \<^verbatim>\<open>pause\<close> first runs, which
  \<^verbatim>\<open>getattr(self, '_is_paused', False)\<close> reads as false) and the queue of events that
  the watch backend has filled and that have not been dispatched yet.
\<close>

record event =
  src_path :: path
  is_directory :: bool

record observer =
  is_paused :: bool
  event_queue :: "event list"

definition pause :: "observer \<Rightarrow> observer" where
  "pause ob = ob\<lparr>is_paused := True\<rparr>"

text \<open>\<^verbatim>\<open>resume\<close> sleeps, clears the queue and unsets the flag; the sleep changes no state here.\<close>

definition resume :: "observer \<Rightarrow> observer" where
  "resume ob = (ob\<lparr>event_queue := []\<rparr>)\<lparr>is_paused := False\<rparr>"

text \<open>
  \<^verbatim>\<open>ignore_events\<close> is a generator under \<^verbatim>\<open>contextlib.contextmanager\<close>: \<^verbatim>\<open>pause\<close> runs on
  entry to the \<^verbatim>\<open>with\<close> block; when the block ends or returns, the generator continues
  after its \<^verbatim>\<open>yield\<close> and \<^verbatim>\<open>resume\<close> runs; when the block raises, the exception is raised
  again at the \<^verbatim>\<open>yield\<close>, which is inside no \<^verbatim>\<open>try\<close>, so the generator ends there and the
  exception leaves the \<^verbatim>\<open>with\<close> statement.
\<close>

definition ignore_events ::
  "(world \<Rightarrow> unit outcome) \<Rightarrow> observer \<times> world \<Rightarrow> (error + unit) \<times> observer \<times> world" where
  "ignore_events block s =
    (case s of (ob, w) \<Rightarrow>
      let ob' = pause ob
      in case block w of
           (Inl e, w') \<Rightarrow> (Inl e, ob', w')
         | (Inr u, w') \<Rightarrow> (Inr u, resume ob', w'))"

subsection \<open>EventHandler.on_modified\<close>

text \<open>Lines 101 to 107. \<^verbatim>\<open>setupPath\<close> is \<open>None\<close> when the variable has not been assigned.\<close>

definition copy_setups ::
  "path \<Rightarrow> string \<Rightarrow> path option \<Rightarrow> string list \<Rightarrow> world \<Rightarrow> unit outcome" where
  "copy_setups carDir track setupPath setups w =
    for_each (\<lambda>setup w.
        let targetPath = os_path_join carDir [track, setup]
        in if \<not> isfile w targetPath then
             (case setupPath of
                None \<Rightarrow> (Inl UnboundLocalError, w)
              | Some sp \<Rightarrow> shutil_copy sp targetPath w)
           else (Inr (), w))
      setups w"

text \<open>Lines 109 to 115.\<close>

definition remove_deleted :: "path \<Rightarrow> string \<Rightarrow> string list \<Rightarrow> world \<Rightarrow> unit outcome" where
  "remove_deleted carDir track setups w =
    (let targetPath = os_path_join carDir [track]
     in case list_dir targetPath True False w of
          Inl e \<Rightarrow> (Inl e, w)
        | Inr trackSetups \<Rightarrow>
           for_each (\<lambda>setup w.
               if setup \<notin> set setups then os_remove (os_path_join targetPath [setup]) w
               else (Inr (), w))
             trackSetups w)"

text \<open>Lines 93 to 115: the loop over the known tracks of a directory-level event.\<close>

definition sync_tracks ::
  "path \<Rightarrow> string \<Rightarrow> path option \<Rightarrow> string list \<Rightarrow> world \<Rightarrow> unit outcome" where
  "sync_tracks carDir trackName setupPath setups w =
    for_each (\<lambda>track w.
        if track = trackName then (Inr (), w)
        else case copy_setups carDir track setupPath setups w of
               (Inl e, w') \<Rightarrow> (Inl e, w')
             | (Inr u, w') \<Rightarrow> remove_deleted carDir track setups w')
      ACC_TRACK_FOLDERS w"

text \<open>Lines 121 to 127: the loop over the known tracks of a single-file event.\<close>

definition copy_changes :: "path \<Rightarrow> string \<Rightarrow> path \<Rightarrow> string \<Rightarrow> world \<Rightarrow> unit outcome" where
  "copy_changes carDir trackName setupPath setupName w =
    for_each (\<lambda>track w.
        if track = trackName then (Inr (), w)
        else shutil_copyfile setupPath (os_path_join carDir [track, setupName]) w)
      ACC_TRACK_FOLDERS w"

text \<open>
  Lines 68 to 76: the track directory is the event's path for a directory and its parent
  for a file; the car directory is above it, and the car's name is its last component.
\<close>

definition classify :: "event \<Rightarrow> path \<times> path \<times> string \<times> string" where
  "classify ev =
    (let trackDir = (if is_directory ev then src_path ev else dirname (src_path ev));
         (carDir, trackName) = os_path_split trackDir;
         (u, carName) = os_path_split carDir
     in (trackDir, carDir, trackName, carName))"

text \<open>
  The block under \<^verbatim>\<open>with self._observer.ignore_events()\<close>. In the directory case the
  variable \<^verbatim>\<open>setupPath\<close> is never assigned (line 73 is in the other branch), and line 105
  reads it.
\<close>

definition on_modified_block :: "event \<Rightarrow> world \<Rightarrow> unit outcome" where
  "on_modified_block ev w =
    (case classify ev of (trackDir, carDir, trackName, carName) \<Rightarrow>
      if carName = ''Setups'' then (Inr (), w)
      else case create_track_dirs carDir w of
        (Inl e, w') \<Rightarrow> (Inl e, w')
      | (Inr u, w') \<Rightarrow>
         if is_directory ev then
           (case list_dir trackDir True False w' of
              Inl e \<Rightarrow> (Inl e, w')
            | Inr setups \<Rightarrow> sync_tracks carDir trackName None setups w')
         else copy_changes carDir trackName (src_path ev) (basename (src_path ev)) w')"

definition on_modified :: "event \<Rightarrow> observer \<times> world \<Rightarrow> (error + unit) \<times> observer \<times> world" where
  "on_modified ev s = ignore_events (on_modified_block ev) s"

text \<open>
  \<^verbatim>\<open>dispatch_events\<close> hands the next queued event to the handler unless the observer is
  paused. The watch backend fills the queue from a thread of its own; when it does so is
  not part of this model.
\<close>

definition dispatch_events :: "observer \<times> world \<Rightarrow> (error + unit) \<times> observer \<times> world" where
  "dispatch_events s =
    (case s of (ob, w) \<Rightarrow>
      if \<not> is_paused ob then
        (case event_queue ob of
           [] \<Rightarrow> (Inr (), ob, w)
         | ev # q \<Rightarrow> on_modified ev (ob\<lparr>event_queue := q\<rparr>, w))
      else (Inr (), ob, w))"

subsection \<open>init\<close>

text \<open>Lines 162 to 170: the setups of one track are renamed and their new paths collected.\<close>

fun rename_setups ::
  "path \<Rightarrow> string \<Rightarrow> string list \<Rightarrow> path list \<Rightarrow> world \<Rightarrow> (path list) outcome" where
  "rename_setups trackPath track [] setupPaths w = (Inr setupPaths, w)"
| "rename_setups trackPath track (setup # setups) setupPaths w =
    (let newName = track @ ''-'' @ setup;
         sourcePath = os_path_join trackPath [setup];
         targetPath = os_path_join trackPath [newName]
     in case shutil_move sourcePath targetPath w of
          (Inl e, w') \<Rightarrow> (Inl e, w')
        | (Inr u, w') \<Rightarrow> rename_setups trackPath track setups (setupPaths @ [targetPath]) w')"

text \<open>Lines 159 to 170.\<close>

fun rename_tracks :: "path \<Rightarrow> string list \<Rightarrow> path list \<Rightarrow> world \<Rightarrow> (path list) outcome" where
  "rename_tracks carPath [] setupPaths w = (Inr setupPaths, w)"
| "rename_tracks carPath (track # tracks) setupPaths w =
    (let trackPath = os_path_join carPath [track]
     in case list_dir trackPath True False w of
          Inl e \<Rightarrow> (Inl e, w)
        | Inr setups \<Rightarrow>
           (case rename_setups trackPath track setups setupPaths w of
              (Inl e, w') \<Rightarrow> (Inl e, w')
            | (Inr setupPaths', w') \<Rightarrow> rename_tracks carPath tracks setupPaths' w'))"

text \<open>Lines 176 to 190: one renamed setup goes to every track but its own.\<close>

definition copy_setup :: "path \<Rightarrow> path \<Rightarrow> world \<Rightarrow> unit outcome" where
  "copy_setup carPath setupPath w =
    for_each (\<lambda>track w.
        let trackPath = os_path_join carPath [track];
            targetPath = os_path_join trackPath [basename setupPath]
        in if setupPath = targetPath then (Inr (), w)
           else shutil_copyfile setupPath targetPath w)
      ACC_TRACK_FOLDERS w"

text \<open>Lines 152 to 190: the body of the loop over the cars.\<close>

definition init_car :: "path \<Rightarrow> string \<Rightarrow> world \<Rightarrow> unit outcome" where
  "init_car setupsPath car w =
    (let carPath = os_path_join setupsPath [car]
     in case create_track_dirs carPath w of
          (Inl e, w') \<Rightarrow> (Inl e, w')
        | (Inr u, w') \<Rightarrow>
           (case rename_tracks carPath ACC_TRACK_FOLDERS [] w' of
              (Inl e, w'') \<Rightarrow> (Inl e, w'')
            | (Inr setupPaths, w'') \<Rightarrow> for_each (copy_setup carPath) setupPaths w''))"

definition init :: "path \<Rightarrow> world \<Rightarrow> unit outcome" where
  "init setupsPath w =
    (case list_dir setupsPath False True w of
       Inl e \<Rightarrow> (Inl e, w)
     | Inr cars \<Rightarrow> for_each (init_car setupsPath) cars w)"

section \<open>Well-formed trees and an example car\<close>

text \<open>No path is listed twice in a tree.\<close>

definition wf_world :: "world \<Rightarrow> bool" where
  "wf_world w = distinct (map fst (files w))"

text \<open>
  The examples are about the car directory \<^verbatim>\<open>Setups/Ferrari488\<close>: \<open>new_car\<close> has no
  track directory yet, \<open>garage setups\<close> has the fifteen track directories and the given
  entries, \<open>one_setup\<close> is the garage whose only setup is \<^verbatim>\<open>monza/setup1.json\<close>, and
  \<open>idle\<close> is an observer that is not paused and has nothing queued.
\<close>

definition Ferrari488 :: path where
  "Ferrari488 = [''Setups'', ''Ferrari488'']"

definition idle :: observer where
  "idle = \<lparr>is_paused = False, event_queue = []\<rparr>"

definition new_car :: world where
  "new_car = \<lparr>files = [([''Setups''], Dir), (Ferrari488, Dir)], journal = []\<rparr>"

definition garage :: "(path \<times> node) list \<Rightarrow> world" where
  "garage setups =
    \<lparr>files = [([''Setups''], Dir), (Ferrari488, Dir)]
        @ map (\<lambda>t. (os_path_join Ferrari488 [t], Dir)) ACC_TRACK_FOLDERS @ setups,
     journal = []\<rparr>"

definition one_setup :: world where
  "one_setup = garage [(os_path_join Ferrari488 [''monza'', ''setup1.json''], File ''abc'')]"

section \<open>Lemmas\<close>

subsection \<open>Paths and track names\<close>

text \<open>
  The paths of a car's tree, and the names the initializer gives: no track name
  holds a hyphen, so a prefixed name tells its track.
\<close>

lemma dirname_join [simp]: "dirname (os_path_join p [c]) = p"
  by (simp add: dirname_def os_path_join_def os_path_split_def)

lemma basename_join [simp]: "basename (os_path_join p [c]) = c"
  by (simp add: basename_def os_path_join_def os_path_split_def)

lemma join_inj [simp]: "os_path_join c [t] = os_path_join c [t'] \<longleftrightarrow> t = t'"
  by (simp add: os_path_join_def)

lemma join2_inj [simp]: "os_path_join c [t, n] = os_path_join c [t', n'] \<longleftrightarrow> t = t' \<and> n = n'"
  by (simp add: os_path_join_def)

lemma join2_neq_join1 [simp]: "os_path_join c [t, n] \<noteq> os_path_join c [t']"
  by (simp add: os_path_join_def)

lemma join1_neq_join2 [simp]: "os_path_join c [t'] \<noteq> os_path_join c [t, n]"
  by (simp add: os_path_join_def)

lemma join_neq_self [simp]: "os_path_join c (t # ts) \<noteq> c" "c \<noteq> os_path_join c (t # ts)"
  by (simp_all add: os_path_join_def)

lemma join_join: "os_path_join (os_path_join c [t]) [n] = os_path_join c [t, n]"
  by (simp add: os_path_join_def)

lemma dirname_join2 [simp]: "dirname (os_path_join c [t, n]) = os_path_join c [t]"
  by (simp add: dirname_def os_path_join_def os_path_split_def butlast_append)

lemma basename_join2 [simp]: "basename (os_path_join c [t, n]) = n"
  by (simp add: basename_def os_path_join_def os_path_split_def)

lemma split_join [simp]: "os_path_split (os_path_join c [t]) = (c, t)"
  by (simp add: os_path_join_def os_path_split_def)

lemma butlast_join [simp]: "butlast (os_path_join p [c]) = p" "os_path_join p [c] \<noteq> []"
  by (simp_all add: os_path_join_def)

lemma butlast_join2 [simp]: "butlast (os_path_join c [t, n]) = os_path_join c [t]"
  by (simp add: os_path_join_def butlast_append)

lemma deeper_neq [simp]:
  "sp \<noteq> os_path_join (os_path_join sp [c]) ts"
  "os_path_join sp [f] \<noteq> os_path_join (os_path_join sp [c]) (t # ts)"
  by (simp_all add: os_path_join_def)

lemma longer_name_neq:
  "length s < length s' \<Longrightarrow> t @ s' \<noteq> s"
  by (metis length_append not_add_less2)

lemma prefixed_inj [simp]: "t @ ''-'' @ n = t @ ''-'' @ n' \<longleftrightarrow> n = n'"
  by simp

lemma prefix_inj:
  assumes "CHR ''-'' \<notin> set t" "CHR ''-'' \<notin> set t'" "t @ ''-'' @ n = t' @ ''-'' @ n'"
  shows "t = t' \<and> n = n'"
proof -
  have "takeWhile (\<lambda>c. c \<noteq> CHR ''-'') (t @ ''-'' @ n) = t"
    using assms(1) by (auto simp: takeWhile_tail)
  moreover have "takeWhile (\<lambda>c. c \<noteq> CHR ''-'') (t' @ ''-'' @ n') = t'"
    using assms(2) by (auto simp: takeWhile_tail)
  ultimately have "t = t'" using assms(3) by simp
  with assms(3) show ?thesis by simp
qed

lemma track_no_dash: "t \<in> set ACC_TRACK_FOLDERS \<Longrightarrow> CHR ''-'' \<notin> set t"
  by (auto simp: ACC_TRACK_FOLDERS_def)

lemma distinct_tracks: "distinct ACC_TRACK_FOLDERS"
  by (simp add: ACC_TRACK_FOLDERS_def)

lemma track_prefix_inj:
  "t \<in> set ACC_TRACK_FOLDERS \<Longrightarrow> t' \<in> set ACC_TRACK_FOLDERS \<Longrightarrow> t @ ''-'' @ n = t' @ ''-'' @ n'
   \<Longrightarrow> t = t' \<and> n = n'"
  using prefix_inj track_no_dash by blast

lemma Barcelona_track: "''Barcelona'' \<in> set ACC_TRACK_FOLDERS"
  by (simp add: ACC_TRACK_FOLDERS_def)

lemma Spa_track: "''Spa'' \<in> set ACC_TRACK_FOLDERS"
  by (simp add: ACC_TRACK_FOLDERS_def)

lemma monza_track: "''monza'' \<in> set ACC_TRACK_FOLDERS"
  by (simp add: ACC_TRACK_FOLDERS_def)

subsection \<open>Loops\<close>

text \<open>
  What a loop keeps, when it does nothing, and when it ends with an exception.
\<close>

lemma for_each_preserves:
  "P w \<Longrightarrow> (\<And>x w. x \<in> set xs \<Longrightarrow> P w \<Longrightarrow> P (snd (body x w))) \<Longrightarrow> P (snd (for_each body xs w))"
proof (induction xs arbitrary: w)
  case Nil
  then show ?case by simp
next
  case (Cons x xs)
  have p1: "P (snd (body x w))" using Cons.prems by simp
  show ?case
  proof (cases "body x w")
    case (Pair r w1)
    show ?thesis
    proof (cases r)
      case (Inl e)
      with Pair p1 show ?thesis by simp
    next
      case (Inr u)
      have "P (snd (for_each body xs w1))"
        using Cons.IH[of w1] Cons.prems(2) p1 Pair by simp
      with Pair Inr show ?thesis by simp
    qed
  qed
qed

lemma for_each_skip:
  "(\<And>x. x \<in> set xs \<Longrightarrow> body x w = (Inr (), w)) \<Longrightarrow> for_each body xs w = (Inr (), w)"
  by (induction xs) auto

lemma for_each_raises:
  assumes "\<And>x. x \<in> set xs \<Longrightarrow> body x w = (Inr (), w) \<or> body x w = (Inl e, w)"
    and "\<exists>x\<in>set xs. body x w = (Inl e, w)"
  shows "for_each body xs w = (Inl e, w)"
  using assms
proof (induction xs)
  case Nil
  then show ?case by simp
next
  case (Cons x xs)
  show ?case
  proof (cases "body x w = (Inl e, w)")
    case True
    then show ?thesis by simp
  next
    case False
    with Cons.prems(1)[of x] have s: "body x w = (Inr (), w)" by simp
    with Cons.prems(2) have "\<exists>y\<in>set xs. body y w = (Inl e, w)" by auto
    with Cons.IH Cons.prems(1) have "for_each body xs w = (Inl e, w)" by simp
    with s show ?thesis by simp
  qed
qed

subsection \<open>The tree and the calls on it\<close>

text \<open>
  Each call is characterised by what a lookup gives afterwards; a listing has the
  entries of the directory, each once in a well-formed tree.
\<close>

lemma isdir_iff: "isdir w p \<longleftrightarrow> lookup w p = Some Dir"
  by (auto simp: isdir_def split: option.splits node.splits)

lemma isfile_iff: "isfile w p \<longleftrightarrow> (\<exists>b. lookup w p = Some (File b))"
  by (auto simp: isfile_def split: option.splits node.splits)

lemma not_exists_iff: "\<not> exists_path w p \<longleftrightarrow> lookup w p = None"
  by (simp add: exists_path_def)

lemma lookup_update:
  "lookup (w\<lparr>files := AList.update p v (files w), journal := j\<rparr>) q = (if q = p then Some v else lookup w q)"
  by (simp add: lookup_def update_conv')

lemma lookup_delete:
  "lookup (w\<lparr>files := AList.delete p (files w), journal := j\<rparr>) q = (if q = p then None else lookup w q)"
  by (simp add: lookup_def delete_conv')

lemma lookup_move:
  "lookup (w\<lparr>files := AList.update dst v (AList.delete src (files w)), journal := j\<rparr>) q
     = (if q = dst then Some v else if q = src then None else lookup w q)"
  by (simp add: lookup_def update_conv' delete_conv')

lemma wf_update:
  "wf_world w \<Longrightarrow> wf_world (w\<lparr>files := AList.update p v (files w), journal := j\<rparr>)"
  by (simp add: wf_world_def distinct_update)

lemma wf_delete:
  "wf_world w \<Longrightarrow> wf_world (w\<lparr>files := AList.delete p (files w), journal := j\<rparr>)"
  by (simp add: wf_world_def distinct_delete)

lemma wf_move:
  "wf_world w \<Longrightarrow> wf_world (w\<lparr>files := AList.update dst v (AList.delete src (files w)), journal := j\<rparr>)"
  by (simp add: wf_world_def distinct_update distinct_delete)

lemma lookup_mkdir:
  "lookup (snd (os_mkdir p w)) q = (if fst (os_mkdir p w) = Inr () \<and> q = p then Some Dir else lookup w q)"
  by (auto simp: os_mkdir_def lookup_def update_conv' split: option.splits)

lemma mkdir_ok:
  "isdir w (dirname p) \<Longrightarrow> \<not> exists_path w p \<Longrightarrow>
   os_mkdir p w = (Inr (), w\<lparr>files := AList.update p Dir (files w), journal := journal w @ [Mkdir p]\<rparr>)"
  by (auto simp: os_mkdir_def parent_error_def isdir_def split: option.splits node.splits)

lemma mkdir_success_new: "fst (os_mkdir p w) = Inr () \<Longrightarrow> lookup w p = None"
  by (simp add: os_mkdir_def exists_path_def split: option.splits if_splits)

lemma mkdir_keeps: "lookup w q = Some v \<Longrightarrow> lookup (snd (os_mkdir p w)) q = Some v"
  using mkdir_success_new[of p w] by (auto simp: lookup_mkdir)

lemma lookup_remove:
  "lookup (snd (os_remove p w)) q = (if fst (os_remove p w) = Inr () \<and> q = p then None else lookup w q)"
  by (simp add: os_remove_def lookup_delete split: option.splits node.splits)

lemma remove_ok:
  "lookup w p = Some (File b) \<Longrightarrow>
   os_remove p w = (Inr (), w\<lparr>files := AList.delete p (files w), journal := journal w @ [Remove p]\<rparr>)"
  by (simp add: os_remove_def)

lemma copyfile_ok:
  assumes "lookup w src = Some (File b)" "src \<noteq> dst" "isdir w (dirname dst)" "\<not> isdir w dst"
  shows "shutil_copyfile src dst w =
    (Inr (), w\<lparr>files := AList.update dst (File b) (files w), journal := journal w @ [CopyFile src dst]\<rparr>)"
  using assms by (simp add: shutil_copyfile_def parent_error_def isdir_iff)

lemma copyfile_wf: "wf_world w \<Longrightarrow> wf_world (snd (shutil_copyfile src dst w))"
  by (simp add: shutil_copyfile_def wf_update split: option.splits node.splits)

lemma move_ok:
  assumes "lookup w src = Some (File b)" "lookup w dst = None" "isdir w (dirname dst)"
  shows "shutil_move src dst w =
    (Inr (), w\<lparr>files := AList.update dst (File b) (AList.delete src (files w)),
                journal := journal w @ [Move src dst]\<rparr>)"
  using assms by (simp add: shutil_move_def isdir_iff parent_error_def Let_def)

lemma children_set: "set (children p fs) = {n. p @ [n] \<in> fst ` set fs}"
proof -
  have "\<And>k. k \<noteq> [] \<and> butlast k = p \<longleftrightarrow> k = p @ [last k]"
    by (metis append_butlast_last_id butlast_snoc snoc_eq_iff_butlast)
  then show ?thesis
    unfolding children_def by (auto simp: image_iff) (metis fst_conv last_snoc)+
qed

lemma children_keys:
  "children p fs = map last (filter (\<lambda>k. k \<noteq> [] \<and> butlast k = p) (map fst fs))"
  by (simp add: children_def filter_map comp_def)

lemma children_update_other:
  "\<not> (k \<noteq> [] \<and> butlast k = p) \<Longrightarrow> children p (AList.update k v fs) = children p fs"
  by (auto simp: children_keys update_keys)

lemma children_delete_other:
  assumes "\<not> (k \<noteq> [] \<and> butlast k = p)"
  shows "children p (AList.delete k fs) = children p fs"
proof -
  have "filter (\<lambda>k. k \<noteq> [] \<and> butlast k = p) (removeAll k (map fst fs))
      = filter (\<lambda>k. k \<noteq> [] \<and> butlast k = p) (map fst fs)"
    using assms by (induction fs) auto
  then show ?thesis by (simp add: children_keys delete_keys)
qed

lemma children_move:
  assumes "p \<noteq> tp"
  shows "children p (files (w\<lparr>files := AList.update (os_path_join tp [x]) v (AList.delete (os_path_join tp [y]) (files w)), journal := j\<rparr>))
     = children p (files w)"
  using assms by (simp add: children_update_other children_delete_other)

lemma children_distinct: "distinct (map fst fs) \<Longrightarrow> distinct (children p fs)"
proof -
  assume d: "distinct (map fst fs)"
  have "inj_on last {k. k \<noteq> [] \<and> butlast k = p}"
    by (rule inj_onI) (metis (mono_tags, lifting) append_butlast_last_id mem_Collect_eq)
  then have "inj_on last (set (filter (\<lambda>k. k \<noteq> [] \<and> butlast k = p) (map fst fs)))"
    by (rule inj_on_subset) auto
  with d show ?thesis by (simp add: children_keys distinct_map)
qed

lemma copyfile_children:
  "\<not> (dst \<noteq> [] \<and> butlast dst = p) \<Longrightarrow>
   children p (files (snd (shutil_copyfile src dst w))) = children p (files w)"
  by (simp add: shutil_copyfile_def children_update_other split: option.splits node.splits)

lemma copyfile_children':
  "p \<noteq> butlast dst \<Longrightarrow> children p (files (snd (shutil_copyfile src dst w))) = children p (files w)"
  by (rule copyfile_children) auto

lemma mkdir_children:
  "p \<noteq> butlast q \<Longrightarrow> children p (files (snd (os_mkdir q w))) = children p (files w)"
  by (auto simp: os_mkdir_def children_update_other split: option.splits)

lemma list_dir_ok: "isdir w p \<Longrightarrow> \<exists>ns. list_dir p fl dr w = Inr ns"
  by (simp add: list_dir_def listdir_def isdir_iff)

lemma list_dir_files_set:
  assumes "list_dir p True False w = Inr ns"
  shows "set ns = {n. isfile w (os_path_join p [n])}"
proof -
  from assms have ns: "ns = filter (\<lambda>f. isfile w (os_path_join p [f])) (children p (files w))"
    by (auto simp: list_dir_def listdir_def split: option.splits node.splits sum.splits)
  have "\<And>n. isfile w (os_path_join p [n]) \<Longrightarrow> n \<in> set (children p (files w))"
  proof -
    fix n assume "isfile w (os_path_join p [n])"
    then have "map_of (files w) (p @ [n]) \<noteq> None" by (auto simp: isfile_iff lookup_def os_path_join_def)
    then have "p @ [n] \<in> fst ` set (files w)" by (simp add: map_of_eq_None_iff)
    then show "n \<in> set (children p (files w))" by (simp add: children_set)
  qed
  with ns show ?thesis by auto
qed

lemma list_dir_files:
  assumes "wf_world w" "isdir w p"
  shows "\<exists>ns. list_dir p True False w = Inr ns \<and> distinct ns \<and> set ns = {n. isfile w (os_path_join p [n])}"
proof -
  from list_dir_ok[OF assms(2)] obtain ns where ns: "list_dir p True False w = Inr ns" by blast
  then have "ns = filter (\<lambda>f. isfile w (os_path_join p [f])) (children p (files w))"
    by (auto simp: list_dir_def listdir_def split: option.splits node.splits sum.splits)
  then have "distinct ns" using assms(1) by (simp add: wf_world_def children_distinct)
  with ns list_dir_files_set[OF ns] show ?thesis by blast
qed

lemma list_dir_cong:
  assumes "lookup w' p = lookup w p" "children p (files w') = children p (files w)"
    and "\<And>f. lookup w' (os_path_join p [f]) = lookup w (os_path_join p [f])"
  shows "list_dir p a b w' = list_dir p a b w"
  by (simp add: list_dir_def listdir_def isfile_def isdir_def assms split: option.splits node.splits)

lemma list_dir_dirs_member:
  assumes "list_dir p False True w = Inr ns" "n \<in> set ns"
  shows "isdir w (os_path_join p [n])"
proof -
  from assms(1) have "ns = filter (\<lambda>f. isdir w (os_path_join p [f])) (children p (files w))"
    by (auto simp: list_dir_def listdir_def split: option.splits node.splits sum.splits)
  with assms(2) show ?thesis by simp
qed

subsection \<open>create_track_dirs\<close>

text \<open>
  The Directory Ensurer creates what is missing and keeps what is there.
\<close>

lemma create_track_dirs_noop:
  "\<forall>t\<in>set ACC_TRACK_FOLDERS. isdir w (os_path_join carDir [t]) \<Longrightarrow> create_track_dirs carDir w = (Inr (), w)"
  unfolding create_track_dirs_def by (rule for_each_skip) (simp add: Let_def)

lemma mkdir_step:
  assumes "isdir w carDir" "\<not> isfile w (os_path_join carDir [t])"
  shows "\<exists>w'. (if \<not> isdir w (os_path_join carDir [t]) then os_mkdir (os_path_join carDir [t]) w else (Inr (), w)) = (Inr (), w')
      \<and> isdir w' (os_path_join carDir [t])
      \<and> (\<forall>q. q \<noteq> os_path_join carDir [t] \<longrightarrow> lookup w' q = lookup w q)
      \<and> (\<forall>q. lookup w q \<noteq> None \<longrightarrow> lookup w' q = lookup w q)
      \<and> (wf_world w \<longrightarrow> wf_world w')"
proof (cases "isdir w (os_path_join carDir [t])")
  case True
  then show ?thesis by simp
next
  case False
  define p where "p = os_path_join carDir [t]"
  define w' where "w' = w\<lparr>files := AList.update p Dir (files w), journal := journal w @ [Mkdir p]\<rparr>"
  have none: "lookup w p = None"
  proof (cases "lookup w p")
    case None
    then show ?thesis .
  next
    case (Some n)
    with False assms(2) show ?thesis by (cases n) (simp_all add: isdir_iff isfile_iff p_def)
  qed
  have "isdir w (dirname p)" using assms(1) by (simp add: p_def)
  then have mk: "os_mkdir p w = (Inr (), w')"
    unfolding w'_def by (rule mkdir_ok) (simp add: not_exists_iff none)
  have l: "\<And>q. lookup w' q = (if q = p then Some Dir else lookup w q)"
    unfolding w'_def by (rule lookup_update)
  have c1: "(if \<not> isdir w p then os_mkdir p w else (Inr (), w)) = (Inr (), w')"
    using False mk by (simp add: p_def)
  have c2: "isdir w' p" by (simp add: isdir_iff l)
  have c3: "\<forall>q. q \<noteq> p \<longrightarrow> lookup w' q = lookup w q" by (simp add: l)
  have c4: "\<forall>q. lookup w q \<noteq> None \<longrightarrow> lookup w' q = lookup w q" using none by (auto simp add: l)
  have c5: "wf_world w \<longrightarrow> wf_world w'" unfolding w'_def by (simp add: wf_update)
  show ?thesis unfolding p_def[symmetric] by (intro exI[of _ w'] conjI c1 c2 c3 c4 c5)
qed

lemma mkdirs_ok:
  assumes "isdir w carDir" "\<forall>t\<in>set ts. \<not> isfile w (os_path_join carDir [t])"
  shows "\<exists>w'. for_each (\<lambda>track w.
        let targetPath = os_path_join carDir [track]
        in if \<not> isdir w targetPath then os_mkdir targetPath w else (Inr (), w)) ts w = (Inr (), w')
      \<and> (\<forall>t\<in>set ts. isdir w' (os_path_join carDir [t]))
      \<and> (\<forall>q. (\<forall>t\<in>set ts. q \<noteq> os_path_join carDir [t]) \<longrightarrow> lookup w' q = lookup w q)
      \<and> (\<forall>q. lookup w q \<noteq> None \<longrightarrow> lookup w' q = lookup w q)
      \<and> (wf_world w \<longrightarrow> wf_world w')"
  using assms
proof (induction ts arbitrary: w)
  case Nil
  then show ?case by simp
next
  case (Cons x ts)
  have nf: "\<not> isfile w (os_path_join carDir [x])" using Cons.prems(2) by simp
  from mkdir_step[OF Cons.prems(1) nf] obtain w1 where
      s: "(if \<not> isdir w (os_path_join carDir [x]) then os_mkdir (os_path_join carDir [x]) w else (Inr (), w)) = (Inr (), w1)"
      and p: "isdir w1 (os_path_join carDir [x])"
      and f: "\<forall>q. q \<noteq> os_path_join carDir [x] \<longrightarrow> lookup w1 q = lookup w q"
      and e: "\<forall>q. lookup w q \<noteq> None \<longrightarrow> lookup w1 q = lookup w q"
      and wf: "wf_world w \<longrightarrow> wf_world w1" by blast
  have d1: "isdir w1 carDir" using Cons.prems(1) e by (simp add: isdir_iff)
  have nf1: "\<forall>t\<in>set ts. \<not> isfile w1 (os_path_join carDir [t])"
  proof
    fix t assume t: "t \<in> set ts"
    show "\<not> isfile w1 (os_path_join carDir [t])"
    proof (cases "t = x")
      case True
      with p show ?thesis by (simp add: isdir_iff isfile_iff)
    next
      case False
      then have "os_path_join carDir [t] \<noteq> os_path_join carDir [x]" by (simp add: os_path_join_def)
      with f have "lookup w1 (os_path_join carDir [t]) = lookup w (os_path_join carDir [t])" by simp
      with Cons.prems(2) t show ?thesis by (simp add: isfile_iff)
    qed
  qed
  from Cons.IH[OF d1 nf1] obtain w2 where
    r: "for_each (\<lambda>track w.
        let targetPath = os_path_join carDir [track]
        in if \<not> isdir w targetPath then os_mkdir targetPath w else (Inr (), w)) ts w1 = (Inr (), w2)"
    and p2: "\<forall>t\<in>set ts. isdir w2 (os_path_join carDir [t])"
    and f2: "\<forall>q. (\<forall>t\<in>set ts. q \<noteq> os_path_join carDir [t]) \<longrightarrow> lookup w2 q = lookup w1 q"
    and e2: "\<forall>q. lookup w1 q \<noteq> None \<longrightarrow> lookup w2 q = lookup w1 q"
    and wf2: "wf_world w1 \<longrightarrow> wf_world w2" by blast
  have run: "for_each (\<lambda>track w.
        let targetPath = os_path_join carDir [track]
        in if \<not> isdir w targetPath then os_mkdir targetPath w else (Inr (), w)) (x # ts) w = (Inr (), w2)"
    using s r by (simp add: Let_def)
  have c1: "\<forall>t\<in>set (x # ts). isdir w2 (os_path_join carDir [t])"
    using p p2 e2 by (simp add: isdir_iff)
  have c2: "\<forall>q. (\<forall>t\<in>set (x # ts). q \<noteq> os_path_join carDir [t]) \<longrightarrow> lookup w2 q = lookup w q"
    using f f2 by simp
  have c3: "\<forall>q. lookup w q \<noteq> None \<longrightarrow> lookup w2 q = lookup w q"
    using e e2 by simp
  have c4: "wf_world w \<longrightarrow> wf_world w2" using wf wf2 by simp
  show ?case by (intro exI[of _ w2] conjI run c1 c2 c3 c4)
qed

lemma create_track_dirs_ok:
  assumes "isdir w carDir" "\<forall>t\<in>set ACC_TRACK_FOLDERS. \<not> isfile w (os_path_join carDir [t])"
  shows "\<exists>w'. create_track_dirs carDir w = (Inr (), w')
      \<and> (\<forall>t\<in>set ACC_TRACK_FOLDERS. isdir w' (os_path_join carDir [t]))
      \<and> (\<forall>q. (\<forall>t\<in>set ACC_TRACK_FOLDERS. q \<noteq> os_path_join carDir [t]) \<longrightarrow> lookup w' q = lookup w q)
      \<and> (\<forall>q. lookup w q \<noteq> None \<longrightarrow> lookup w' q = lookup w q)
      \<and> (wf_world w \<longrightarrow> wf_world w')"
  unfolding create_track_dirs_def using assms by (rule mkdirs_ok)

lemma create_track_dirs_keeps:
  assumes "lookup w q = Some v"
  shows "lookup (snd (create_track_dirs carDir w)) q = Some v"
  unfolding create_track_dirs_def
  by (rule for_each_preserves[where P = "\<lambda>w. lookup w q = Some v"]) (simp_all add: assms Let_def mkdir_keeps)

lemma create_track_dirs_children:
  assumes "p \<noteq> carDir"
  shows "children p (files (snd (create_track_dirs carDir w))) = children p (files w)"
  unfolding create_track_dirs_def
proof (rule for_each_preserves[where P = "\<lambda>w'. children p (files w') = children p (files w)"])
  fix x and wa :: world assume i: "children p (files wa) = children p (files w)"
  have "p \<noteq> butlast (os_path_join carDir [x])" using assms by simp
  then have "children p (files (snd (os_mkdir (os_path_join carDir [x]) wa))) = children p (files wa)"
    by (rule mkdir_children)
  with i show "children p (files (snd (let targetPath = os_path_join carDir [x]
        in if \<not> isdir wa targetPath then os_mkdir targetPath wa else (Inr (), wa)))) = children p (files w)"
    by (simp add: Let_def)
qed simp

subsection \<open>The observer around the handler\<close>

text \<open>
  What \<^verbatim>\<open>ignore_events\<close> leaves of the observer, by the way the block ends: resumed
  with an empty queue after a normal end, paused after an exception. Whether the events
  of the handler's own writes are already queued when \<^verbatim>\<open>resume\<close> clears the queue depends
  on the backend's thread and on the length of the sleep, which this model does not have.
\<close>

lemma on_modified_world: "snd (snd (on_modified ev (ob, w))) = snd (on_modified_block ev w)"
  by (simp add: on_modified_def ignore_events_def Let_def split: prod.splits sum.splits)

lemma on_modified_result: "fst (on_modified ev (ob, w)) = fst (on_modified_block ev w)"
  by (simp add: on_modified_def ignore_events_def Let_def split: prod.splits sum.splits)

lemma ignore_events_raises:
  "block w = (Inl e, w') \<Longrightarrow> ignore_events block (ob, w) = (Inl e, pause ob, w')"
  by (simp add: ignore_events_def)

lemma dispatch_events_paused: "is_paused ob \<Longrightarrow> dispatch_events (ob, w) = (Inr (), ob, w)"
  by (simp add: dispatch_events_def)

lemma on_modified_returns_resumed:
  "fst (on_modified ev (ob, w)) = Inr () \<Longrightarrow> fst (snd (on_modified ev (ob, w))) = resume (pause ob)"
  by (simp add: on_modified_def ignore_events_def Let_def split: prod.splits sum.splits)

lemma on_modified_raises_paused:
  "fst (on_modified ev (ob, w)) = Inl e \<Longrightarrow> fst (snd (on_modified ev (ob, w))) = pause ob"
  by (simp add: on_modified_def ignore_events_def Let_def split: prod.splits sum.splits)

lemma resume_clears_queue: "event_queue (resume ob) = [] \<and> \<not> is_paused (resume ob)"
  by (simp add: resume_def)

subsection \<open>The single-file branch\<close>

text \<open>
  The loop of lines 121 to 127 writes the source's bytes to every other track.
\<close>

lemma copy_changes_ok:
  assumes "lookup w src = Some (File b)"
    and "src = os_path_join carDir [trackName, setupName]"
    and "\<forall>t\<in>set ts. isdir w (os_path_join carDir [t])"
    and "\<forall>t\<in>set ts. \<not> isdir w (os_path_join carDir [t, setupName])"
  shows "\<exists>w'. for_each (\<lambda>track w.
        if track = trackName then (Inr (), w)
        else shutil_copyfile src (os_path_join carDir [track, setupName]) w) ts w = (Inr (), w')
      \<and> (\<forall>t\<in>set ts. t \<noteq> trackName \<longrightarrow> lookup w' (os_path_join carDir [t, setupName]) = Some (File b))
      \<and> lookup w' src = Some (File b)
      \<and> (\<forall>q. (\<forall>t\<in>set ts. q \<noteq> os_path_join carDir [t, setupName]) \<longrightarrow> lookup w' q = lookup w q)"
  using assms
proof (induction ts arbitrary: w)
  case Nil
  then show ?case by simp
next
  case (Cons x ts)
  let ?body = "\<lambda>track w.
        if track = trackName then (Inr (), w)
        else shutil_copyfile src (os_path_join carDir [track, setupName]) w"
  let ?dst = "os_path_join carDir [x, setupName]"
  obtain w1 where
    s: "?body x w = (Inr (), w1)"
    and l: "\<And>q. lookup w1 q = (if x \<noteq> trackName \<and> q = ?dst then Some (File b) else lookup w q)"
  proof (cases "x = trackName")
    case True
    then show ?thesis using that[of w] by simp
  next
    case False
    define w1 where "w1 = w\<lparr>files := AList.update ?dst (File b) (files w), journal := journal w @ [CopyFile src ?dst]\<rparr>"
    have "src \<noteq> ?dst" using False Cons.prems(2) by simp
    moreover have "isdir w (dirname ?dst)" using Cons.prems(3) by simp
    moreover have "\<not> isdir w ?dst" using Cons.prems(4) by simp
    ultimately have "shutil_copyfile src ?dst w = (Inr (), w1)"
      unfolding w1_def using Cons.prems(1) by (intro copyfile_ok)
    moreover have "\<And>q. lookup w1 q = (if q = ?dst then Some (File b) else lookup w q)"
      unfolding w1_def by (rule lookup_update)
    ultimately show ?thesis using that[of w1] False by simp
  qed
  have src1: "lookup w1 src = Some (File b)" using Cons.prems(1) by (simp add: l)
  have d1: "\<forall>t\<in>set ts. isdir w1 (os_path_join carDir [t])"
    using Cons.prems(3) by (simp add: isdir_iff l)
  have n1: "\<forall>t\<in>set ts. \<not> isdir w1 (os_path_join carDir [t, setupName])"
    using Cons.prems(4) by (simp add: isdir_iff l)
  from Cons.IH[OF src1 Cons.prems(2) d1 n1] obtain w2 where
    r: "for_each ?body ts w1 = (Inr (), w2)"
    and c: "\<forall>t\<in>set ts. t \<noteq> trackName \<longrightarrow> lookup w2 (os_path_join carDir [t, setupName]) = Some (File b)"
    and s2: "lookup w2 src = Some (File b)"
    and f: "\<forall>q. (\<forall>t\<in>set ts. q \<noteq> os_path_join carDir [t, setupName]) \<longrightarrow> lookup w2 q = lookup w1 q"
    by blast
  have run: "for_each ?body (x # ts) w = (Inr (), w2)" using s r by simp
  have c1: "\<forall>t\<in>set (x # ts). t \<noteq> trackName \<longrightarrow> lookup w2 (os_path_join carDir [t, setupName]) = Some (File b)"
  proof
    fix t assume t: "t \<in> set (x # ts)"
    show "t \<noteq> trackName \<longrightarrow> lookup w2 (os_path_join carDir [t, setupName]) = Some (File b)"
    proof (cases "t \<in> set ts")
      case True
      with c show ?thesis by simp
    next
      case False
      with t have tx: "t = x" by simp
      from False have "\<forall>t'\<in>set ts. os_path_join carDir [t, setupName] \<noteq> os_path_join carDir [t', setupName]" by auto
      with f have "lookup w2 (os_path_join carDir [t, setupName]) = lookup w1 (os_path_join carDir [t, setupName])" by simp
      then show ?thesis using tx by (simp add: l)
    qed
  qed
  have c3: "\<forall>q. (\<forall>t\<in>set (x # ts). q \<noteq> os_path_join carDir [t, setupName]) \<longrightarrow> lookup w2 q = lookup w q"
    using f by (simp add: l)
  show ?case by (intro exI[of _ w2] conjI run c1 s2 c3)
qed

lemma copy_changes_frame:
  "(wf_world w \<longrightarrow> wf_world (snd (copy_changes carDir trackName src setupName w)))
   \<and> (\<forall>p. (\<forall>t. p \<noteq> os_path_join carDir [t]) \<longrightarrow>
          children p (files (snd (copy_changes carDir trackName src setupName w))) = children p (files w))"
  unfolding copy_changes_def
proof (rule for_each_preserves[where P = "\<lambda>w'. (wf_world w \<longrightarrow> wf_world w')
       \<and> (\<forall>p. (\<forall>t. p \<noteq> os_path_join carDir [t]) \<longrightarrow> children p (files w') = children p (files w))"])
  show "(wf_world w \<longrightarrow> wf_world w) \<and>
    (\<forall>p. (\<forall>t. p \<noteq> os_path_join carDir [t]) \<longrightarrow> children p (files w) = children p (files w))"
    by simp
next
  fix x wa
  assume i: "(wf_world w \<longrightarrow> wf_world wa) \<and>
    (\<forall>p. (\<forall>t. p \<noteq> os_path_join carDir [t]) \<longrightarrow> children p (files wa) = children p (files w))"
  let ?r = "if x = trackName then (Inr (), wa)
            else shutil_copyfile src (os_path_join carDir [x, setupName]) wa"
  have "wf_world w \<longrightarrow> wf_world (snd ?r)" using i by (simp add: copyfile_wf)
  moreover have "\<forall>p. (\<forall>t. p \<noteq> os_path_join carDir [t]) \<longrightarrow> children p (files (snd ?r)) = children p (files w)"
  proof (intro allI impI)
    fix p assume h: "\<forall>t. p \<noteq> os_path_join carDir [t]"
    then have "p \<noteq> butlast (os_path_join carDir [x, setupName])" by simp
    then have "children p (files (snd (shutil_copyfile src (os_path_join carDir [x, setupName]) wa)))
        = children p (files wa)" by (rule copyfile_children')
    with i h show "children p (files (snd ?r)) = children p (files w)" by simp
  qed
  ultimately show "(wf_world w \<longrightarrow> wf_world (snd ?r)) \<and>
    (\<forall>p. (\<forall>t. p \<noteq> os_path_join carDir [t]) \<longrightarrow> children p (files (snd ?r)) = children p (files w))"
    by simp
qed

subsection \<open>The directory branch\<close>

text \<open>
  The copy step of lines 101 to 107 changes nothing: it either finds every file in
  place or raises. The removal step of lines 109 to 115 removes the files the source
  track does not have, and with nothing to copy the whole pass propagates deletions.
\<close>

lemma copy_setups_unbound: "snd (copy_setups carDir track None setups w) = w"
  unfolding copy_setups_def
  by (rule for_each_preserves[where P = "\<lambda>w'. w' = w"]) (simp_all add: Let_def)

lemma remove_deleted_keeps:
  assumes "lookup w q = Some v" "\<And>s. s \<notin> set setups \<Longrightarrow> q \<noteq> os_path_join (os_path_join carDir [track]) [s]"
  shows "lookup (snd (remove_deleted carDir track setups w)) q = Some v"
proof (cases "list_dir (os_path_join carDir [track]) True False w")
  case (Inl e)
  then show ?thesis using assms(1) by (simp add: remove_deleted_def Let_def)
next
  case (Inr trackSetups)
  have "lookup (snd (for_each (\<lambda>setup w.
               if setup \<notin> set setups then os_remove (os_path_join (os_path_join carDir [track]) [setup]) w
               else (Inr (), w)) trackSetups w)) q = Some v"
    by (rule for_each_preserves[where P = "\<lambda>w. lookup w q = Some v"])
       (use assms in \<open>simp_all add: lookup_remove\<close>)
  with Inr show ?thesis by (simp add: remove_deleted_def Let_def)
qed

lemma sync_tracks_keeps:
  assumes "lookup w q = Some v" "\<And>t s. s \<notin> set setups \<Longrightarrow> q \<noteq> os_path_join (os_path_join carDir [t]) [s]"
  shows "lookup (snd (sync_tracks carDir trackName None setups w)) q = Some v"
  unfolding sync_tracks_def
proof (rule for_each_preserves[where P = "\<lambda>w. lookup w q = Some v"])
  show "lookup w q = Some v" by (rule assms(1))
next
  fix track w1
  assume p: "lookup w1 q = Some v"
  show "lookup (snd (if track = trackName then (Inr (), w1)
        else case copy_setups carDir track None setups w1 of
               (Inl e, w') \<Rightarrow> (Inl e, w')
             | (Inr u, w') \<Rightarrow> remove_deleted carDir track setups w')) q = Some v"
  proof (cases "track = trackName")
    case True
    with p show ?thesis by simp
  next
    case False
    obtain r w2 where c: "copy_setups carDir track None setups w1 = (r, w2)" by (cases "copy_setups carDir track None setups w1")
    with copy_setups_unbound[of carDir track setups w1] have w2: "w2 = w1" by simp
    show ?thesis
    proof (cases r)
      case (Inl e)
      with False c w2 p show ?thesis by simp
    next
      case (Inr u)
      have "lookup (snd (remove_deleted carDir track setups w1)) q = Some v"
        using p assms(2) by (rule remove_deleted_keeps)
      with False c w2 Inr show ?thesis by simp
    qed
  qed
qed

lemma copy_setups_raises:
  assumes "s \<in> set setups" "\<not> isfile w (os_path_join carDir [track, s])"
  shows "copy_setups carDir track None setups w = (Inl UnboundLocalError, w)"
  unfolding copy_setups_def
proof (rule for_each_raises)
  show "\<exists>x\<in>set setups. (let targetPath = os_path_join carDir [track, x]
        in if \<not> isfile w targetPath then
             (case None of
                None \<Rightarrow> (Inl UnboundLocalError, w)
              | Some sp \<Rightarrow> shutil_copy sp targetPath w)
           else (Inr (), w)) = (Inl UnboundLocalError, w)"
    using assms by (intro bexI[of _ s]) (simp_all add: Let_def)
qed (simp add: Let_def)

lemma directory_pass_raises:
  assumes "is_directory ev"
    and "classify ev = (trackDir, carDir, trackName, carName)"
    and "carName \<noteq> ''Setups''"
    and "\<forall>t\<in>set ACC_TRACK_FOLDERS. isdir w (os_path_join carDir [t])"
    and "isdir w trackDir"
    and "isfile w (os_path_join trackDir [s])"
    and "\<forall>t\<in>set ACC_TRACK_FOLDERS. t \<noteq> trackName \<longrightarrow> \<not> isfile w (os_path_join carDir [t, s])"
    and "t0 \<in> set ACC_TRACK_FOLDERS" "t0 \<noteq> trackName"
  shows "on_modified ev (ob, w) = (Inl UnboundLocalError, pause ob, w)"
proof -
  have cr: "create_track_dirs carDir w = (Inr (), w)"
    using assms(4) by (rule create_track_dirs_noop)
  from list_dir_ok[OF assms(5)] obtain setups where ld: "list_dir trackDir True False w = Inr setups"
    by blast
  have s: "s \<in> set setups" using list_dir_files_set[OF ld] assms(6) by simp
  have "sync_tracks carDir trackName None setups w = (Inl UnboundLocalError, w)"
    unfolding sync_tracks_def
  proof (rule for_each_raises)
    fix x assume "x \<in> set ACC_TRACK_FOLDERS"
    then show "(if x = trackName then (Inr (), w)
        else case copy_setups carDir x None setups w of
               (Inl e, w') \<Rightarrow> (Inl e, w')
             | (Inr u, w') \<Rightarrow> remove_deleted carDir x setups w') = (Inr (), w) \<or>
      (if x = trackName then (Inr (), w)
        else case copy_setups carDir x None setups w of
               (Inl e, w') \<Rightarrow> (Inl e, w')
             | (Inr u, w') \<Rightarrow> remove_deleted carDir x setups w') = (Inl UnboundLocalError, w)"
      using assms(7) copy_setups_raises[OF s, of w carDir x] by (cases "x = trackName") simp_all
  next
    show "\<exists>x\<in>set ACC_TRACK_FOLDERS. (if x = trackName then (Inr (), w)
        else case copy_setups carDir x None setups w of
               (Inl e, w') \<Rightarrow> (Inl e, w')
             | (Inr u, w') \<Rightarrow> remove_deleted carDir x setups w') = (Inl UnboundLocalError, w)"
      using assms(7,8,9) copy_setups_raises[OF s, of w carDir t0] by (intro bexI[of _ t0]) simp_all
  qed
  then have "on_modified_block ev w = (Inl UnboundLocalError, w)"
    using assms(1,2,3) cr ld by (simp add: on_modified_block_def)
  then show ?thesis by (simp add: on_modified_def ignore_events_def)
qed

lemma remove_listed_ok:
  assumes "distinct ns" "\<forall>n\<in>set ns. isfile w (os_path_join tp [n])"
  shows "\<exists>w'. for_each (\<lambda>setup w.
               if setup \<notin> set setups then os_remove (os_path_join tp [setup]) w
               else (Inr (), w)) ns w = (Inr (), w')
     \<and> (wf_world w \<longrightarrow> wf_world w')
     \<and> (\<forall>q. lookup w' q = (if \<exists>n\<in>set ns. n \<notin> set setups \<and> q = os_path_join tp [n] then None else lookup w q))"
  using assms
proof (induction ns arbitrary: w)
  case Nil
  then show ?case by simp
next
  case (Cons n ns)
  let ?body = "\<lambda>setup w. if setup \<notin> set setups then os_remove (os_path_join tp [setup]) w else (Inr (), w)"
  obtain w1 where s: "?body n w = (Inr (), w1)" and wf1: "wf_world w \<longrightarrow> wf_world w1"
    and l1: "\<And>q. lookup w1 q = (if n \<notin> set setups \<and> q = os_path_join tp [n] then None else lookup w q)"
  proof (cases "n \<in> set setups")
    case True
    then show ?thesis using that[of w] by simp
  next
    case False
    from Cons.prems(2) obtain b where b: "lookup w (os_path_join tp [n]) = Some (File b)"
      by (auto simp: isfile_iff)
    define w1 where "w1 = w\<lparr>files := AList.delete (os_path_join tp [n]) (files w),
        journal := journal w @ [Remove (os_path_join tp [n])]\<rparr>"
    have "os_remove (os_path_join tp [n]) w = (Inr (), w1)" unfolding w1_def using b by (rule remove_ok)
    moreover have "wf_world w \<longrightarrow> wf_world w1" unfolding w1_def by (simp add: wf_delete)
    moreover have "\<And>q. lookup w1 q = (if q = os_path_join tp [n] then None else lookup w q)"
      unfolding w1_def by (rule lookup_delete)
    ultimately show ?thesis using that[of w1] False by simp
  qed
  have nn: "n \<notin> set ns" and dn: "distinct ns" using Cons.prems(1) by simp_all
  have f1: "\<forall>k\<in>set ns. isfile w1 (os_path_join tp [k])"
    using Cons.prems(2) nn by (auto simp: isfile_iff l1)
  from Cons.IH[OF dn f1] obtain w2 where
    r: "for_each ?body ns w1 = (Inr (), w2)" and wf2: "wf_world w1 \<longrightarrow> wf_world w2"
    and l2: "\<forall>q. lookup w2 q = (if \<exists>k\<in>set ns. k \<notin> set setups \<and> q = os_path_join tp [k] then None else lookup w1 q)"
    by blast
  have run: "for_each ?body (n # ns) w = (Inr (), w2)" using s r by simp
  have c1: "wf_world w \<longrightarrow> wf_world w2" using wf1 wf2 by simp
  have c2: "\<forall>q. lookup w2 q = (if \<exists>k\<in>set (n # ns). k \<notin> set setups \<and> q = os_path_join tp [k] then None else lookup w q)"
    using l2 by (auto simp: l1)
  show ?case by (intro exI[of _ w2] conjI run c1 c2)
qed

lemma remove_deleted_ok:
  assumes "wf_world w" "isdir w (os_path_join carDir [track])"
  shows "\<exists>w'. remove_deleted carDir track setups w = (Inr (), w') \<and> wf_world w'
     \<and> (\<forall>q. lookup w' q = (if \<exists>n. isfile w (os_path_join carDir [track, n]) \<and> n \<notin> set setups
                                    \<and> q = os_path_join carDir [track, n] then None else lookup w q))"
proof -
  let ?tp = "os_path_join carDir [track]"
  from list_dir_files[OF assms] obtain ns where
    ld: "list_dir ?tp True False w = Inr ns" and dns: "distinct ns"
    and sns: "set ns = {n. isfile w (os_path_join carDir [track, n])}" by (auto simp: join_join)
  have f: "\<forall>n\<in>set ns. isfile w (os_path_join ?tp [n])" using sns by (simp add: join_join)
  from remove_listed_ok[OF dns f, of setups] obtain w' where
    r: "for_each (\<lambda>setup w.
               if setup \<notin> set setups then os_remove (os_path_join ?tp [setup]) w
               else (Inr (), w)) ns w = (Inr (), w')"
    and wf': "wf_world w \<longrightarrow> wf_world w'"
    and l: "\<forall>q. lookup w' q = (if \<exists>n\<in>set ns. n \<notin> set setups \<and> q = os_path_join ?tp [n] then None else lookup w q)"
    by blast
  have run: "remove_deleted carDir track setups w = (Inr (), w')"
    using ld r by (simp add: remove_deleted_def Let_def)
  have c: "\<forall>q. lookup w' q = (if \<exists>n. isfile w (os_path_join carDir [track, n]) \<and> n \<notin> set setups
                                    \<and> q = os_path_join carDir [track, n] then None else lookup w q)"
    using l sns by (auto simp: join_join)
  show ?thesis using assms(1) wf' by (intro exI[of _ w'] conjI run c) simp
qed

lemma copy_setups_nothing_to_do:
  "\<forall>s\<in>set setups. isfile w (os_path_join carDir [track, s]) \<Longrightarrow>
   copy_setups carDir track sp setups w = (Inr (), w)"
  unfolding copy_setups_def by (rule for_each_skip) (simp add: Let_def)

lemma sync_tracks_ok:
  assumes "wf_world w"
    and "\<forall>t\<in>set ts. isdir w (os_path_join carDir [t])"
    and "\<forall>t\<in>set ts. t \<noteq> trackName \<longrightarrow> (\<forall>s\<in>set setups. isfile w (os_path_join carDir [t, s]))"
  shows "\<exists>w'. for_each (\<lambda>track w.
        if track = trackName then (Inr (), w)
        else case copy_setups carDir track None setups w of
               (Inl e, w') \<Rightarrow> (Inl e, w')
             | (Inr u, w') \<Rightarrow> remove_deleted carDir track setups w') ts w = (Inr (), w')
     \<and> wf_world w'
     \<and> (\<forall>q. lookup w' q = (if \<exists>t\<in>set ts. t \<noteq> trackName \<and> (\<exists>n. isfile w (os_path_join carDir [t, n]) \<and> n \<notin> set setups
                                    \<and> q = os_path_join carDir [t, n]) then None else lookup w q))"
  using assms
proof (induction ts arbitrary: w)
  case Nil
  then show ?case by simp
next
  case (Cons t ts)
  let ?body = "\<lambda>track w.
        if track = trackName then (Inr (), w)
        else case copy_setups carDir track None setups w of
               (Inl e, w') \<Rightarrow> (Inl e, w')
             | (Inr u, w') \<Rightarrow> remove_deleted carDir track setups w'"
  obtain w1 where s: "?body t w = (Inr (), w1)" and wf1: "wf_world w1"
    and l1: "\<And>q. lookup w1 q = (if t \<noteq> trackName \<and> (\<exists>n. isfile w (os_path_join carDir [t, n]) \<and> n \<notin> set setups
                                    \<and> q = os_path_join carDir [t, n]) then None else lookup w q)"
  proof (cases "t = trackName")
    case True
    then show ?thesis using that[of w] Cons.prems(1) by simp
  next
    case False
    have cs: "copy_setups carDir t None setups w = (Inr (), w)"
      using Cons.prems(3) False by (intro copy_setups_nothing_to_do) simp
    have d: "isdir w (os_path_join carDir [t])" using Cons.prems(2) by simp
    from remove_deleted_ok[OF Cons.prems(1) d, of setups] obtain w1 where
      "remove_deleted carDir t setups w = (Inr (), w1)" "wf_world w1"
      "\<forall>q. lookup w1 q = (if \<exists>n. isfile w (os_path_join carDir [t, n]) \<and> n \<notin> set setups
                                    \<and> q = os_path_join carDir [t, n] then None else lookup w q)"
      by blast
    then show ?thesis using that[of w1] False cs by simp
  qed
  have d1: "\<forall>t'\<in>set ts. isdir w1 (os_path_join carDir [t'])"
    using Cons.prems(2) by (simp add: isdir_iff l1)
  have p1: "\<forall>t'\<in>set ts. t' \<noteq> trackName \<longrightarrow> (\<forall>s\<in>set setups. isfile w1 (os_path_join carDir [t', s]))"
    using Cons.prems(3) by (auto simp: isfile_iff l1)
  from Cons.IH[OF wf1 d1 p1] obtain w2 where
    r: "for_each ?body ts w1 = (Inr (), w2)" and wf2: "wf_world w2"
    and l2: "\<forall>q. lookup w2 q = (if \<exists>t'\<in>set ts. t' \<noteq> trackName \<and> (\<exists>n. isfile w1 (os_path_join carDir [t', n]) \<and> n \<notin> set setups
                                    \<and> q = os_path_join carDir [t', n]) then None else lookup w1 q)"
    by blast
  have run: "for_each ?body (t # ts) w = (Inr (), w2)" using s r by simp
  have c: "\<forall>q. lookup w2 q = (if \<exists>t'\<in>set (t # ts). t' \<noteq> trackName \<and> (\<exists>n. isfile w (os_path_join carDir [t', n]) \<and> n \<notin> set setups
                                    \<and> q = os_path_join carDir [t', n]) then None else lookup w q)"
  proof
    fix q
    show "lookup w2 q = (if \<exists>t'\<in>set (t # ts). t' \<noteq> trackName \<and> (\<exists>n. isfile w (os_path_join carDir [t', n]) \<and> n \<notin> set setups
                                    \<and> q = os_path_join carDir [t', n]) then None else lookup w q)"
    proof (cases "\<exists>t'\<in>set (t # ts). t' \<noteq> trackName \<and> (\<exists>n. isfile w (os_path_join carDir [t', n]) \<and> n \<notin> set setups
                                    \<and> q = os_path_join carDir [t', n])")
      case True
      then obtain t' n where t': "t' \<in> set (t # ts)" "t' \<noteq> trackName"
        and n: "isfile w (os_path_join carDir [t', n])" "n \<notin> set setups" "q = os_path_join carDir [t', n]"
        by blast
      have "lookup w2 q = None"
      proof (cases "t' = t")
        case True
        with t' n have "lookup w1 q = None" by (auto simp: l1)
        with l2 show ?thesis by simp
      next
        case False
        with t' have m: "t' \<in> set ts" by simp
        have "isfile w1 (os_path_join carDir [t', n])" using n False by (simp add: isfile_iff l1)
        with l2 m t'(2) n show ?thesis by auto
      qed
      with True show ?thesis by simp
    next
      case False
      have a: "lookup w1 q = lookup w q" using False by (auto simp: l1)
      have nx: "\<not> (\<exists>t'\<in>set ts. t' \<noteq> trackName \<and> (\<exists>n. isfile w1 (os_path_join carDir [t', n]) \<and> n \<notin> set setups
                                    \<and> q = os_path_join carDir [t', n]))"
      proof
        assume "\<exists>t'\<in>set ts. t' \<noteq> trackName \<and> (\<exists>n. isfile w1 (os_path_join carDir [t', n]) \<and> n \<notin> set setups
                                    \<and> q = os_path_join carDir [t', n])"
        then obtain t' n where t': "t' \<in> set ts" "t' \<noteq> trackName"
          and n: "isfile w1 (os_path_join carDir [t', n])" "n \<notin> set setups" "q = os_path_join carDir [t', n]"
          by blast
        from n(1) have "isfile w (os_path_join carDir [t', n])"
          by (auto simp: isfile_iff l1 split: if_splits)
        with False t' n show False by auto
      qed
      from spec[OF l2, of q] nx have "lookup w2 q = lookup w1 q" by (simp only: if_False)
      with a have "lookup w2 q = lookup w q" by simp
      with False show ?thesis by (simp only: if_False)
    qed
  qed
  show ?case by (intro exI[of _ w2] conjI run wf2 c)
qed

lemma directory_pass_propagates_deletions:
  assumes "is_directory ev"
    and "src_path ev = os_path_join carDir [trackName]"
    and "snd (os_path_split carDir) \<noteq> ''Setups''"
    and "wf_world w"
    and "isdir w carDir"
    and "\<forall>t\<in>set ACC_TRACK_FOLDERS. \<not> isfile w (os_path_join carDir [t])"
    and "isdir w (os_path_join carDir [trackName])"
    and "\<forall>t\<in>set ACC_TRACK_FOLDERS. t \<noteq> trackName \<longrightarrow>
          (\<forall>s. isfile w (os_path_join carDir [trackName, s]) \<longrightarrow> isfile w (os_path_join carDir [t, s]))"
  shows "\<exists>w'. on_modified ev (ob, w) = (Inr (), resume (pause ob), w')
     \<and> (\<forall>t\<in>set ACC_TRACK_FOLDERS. t \<noteq> trackName \<longrightarrow>
           (\<forall>s. isfile w' (os_path_join carDir [t, s]) \<longleftrightarrow> isfile w (os_path_join carDir [trackName, s])))
     \<and> (\<forall>s. lookup w' (os_path_join carDir [trackName, s]) = lookup w (os_path_join carDir [trackName, s]))"
proof -
  let ?T = "set ACC_TRACK_FOLDERS"
  obtain u carName where sp: "os_path_split carDir = (u, carName)" by (cases "os_path_split carDir")
  with assms(3) have cn: "carName \<noteq> ''Setups''" by simp
  have cl: "classify ev = (os_path_join carDir [trackName], carDir, trackName, carName)"
    using assms(1,2) sp by (simp add: classify_def)
  from create_track_dirs_ok[OF assms(5,6)] obtain w1 where
    cr: "create_track_dirs carDir w = (Inr (), w1)"
    and d1: "\<forall>t\<in>?T. isdir w1 (os_path_join carDir [t])"
    and f1: "\<forall>q. (\<forall>t\<in>?T. q \<noteq> os_path_join carDir [t]) \<longrightarrow> lookup w1 q = lookup w q"
    and k1: "\<forall>q. lookup w q \<noteq> None \<longrightarrow> lookup w1 q = lookup w q"
    and wf1': "wf_world w \<longrightarrow> wf_world w1"
    by blast
  have wf1: "wf_world w1" using assms(4) wf1' by simp
  have s1: "\<And>t x. lookup w1 (os_path_join carDir [t, x]) = lookup w (os_path_join carDir [t, x])"
    using f1 by simp
  have fs1: "\<And>t n. isfile w1 (os_path_join carDir [t, n]) = isfile w (os_path_join carDir [t, n])"
    by (simp add: isfile_iff s1)
  have td1: "isdir w1 (os_path_join carDir [trackName])"
    using assms(7) k1 by (simp add: isdir_iff)
  from list_dir_files[OF wf1 td1] obtain setups where
    ld: "list_dir (os_path_join carDir [trackName]) True False w1 = Inr setups"
    and ss: "set setups = {n. isfile w (os_path_join carDir [trackName, n])}"
    by (auto simp: join_join fs1)
  have pre: "\<forall>t\<in>?T. t \<noteq> trackName \<longrightarrow> (\<forall>s\<in>set setups. isfile w1 (os_path_join carDir [t, s]))"
    using assms(8) ss by (simp add: fs1)
  from sync_tracks_ok[OF wf1 d1 pre] obtain w2 where
    run: "sync_tracks carDir trackName None setups w1 = (Inr (), w2)"
    and l2: "\<forall>q. lookup w2 q = (if \<exists>t\<in>?T. t \<noteq> trackName \<and> (\<exists>n. isfile w1 (os_path_join carDir [t, n]) \<and> n \<notin> set setups
                                    \<and> q = os_path_join carDir [t, n]) then None else lookup w1 q)"
    unfolding sync_tracks_def by blast
  have "on_modified_block ev w = (Inr (), w2)"
    using cl cn cr ld run assms(1) by (simp add: on_modified_block_def)
  then have r: "on_modified ev (ob, w) = (Inr (), resume (pause ob), w2)"
    by (simp add: on_modified_def ignore_events_def)
  have c1: "\<forall>t\<in>?T. t \<noteq> trackName \<longrightarrow>
           (\<forall>s. isfile w2 (os_path_join carDir [t, s]) \<longleftrightarrow> isfile w (os_path_join carDir [trackName, s]))"
  proof (intro ballI impI allI)
    fix t s assume t: "t \<in> ?T" and ne: "t \<noteq> trackName"
    show "isfile w2 (os_path_join carDir [t, s]) \<longleftrightarrow> isfile w (os_path_join carDir [trackName, s])"
    proof (cases "s \<in> set setups")
      case True
      then have "lookup w2 (os_path_join carDir [t, s]) = lookup w (os_path_join carDir [t, s])"
        using l2 by (auto simp: s1)
      moreover from True ss have a: "isfile w (os_path_join carDir [trackName, s])" by simp
      moreover from a assms(8) t ne have "isfile w (os_path_join carDir [t, s])" by blast
      ultimately show ?thesis by (simp add: isfile_iff)
    next
      case False
      with ss have a: "\<not> isfile w (os_path_join carDir [trackName, s])" by simp
      have "\<not> isfile w2 (os_path_join carDir [t, s])"
      proof (cases "isfile w (os_path_join carDir [t, s])")
        case True
        with False t ne have "lookup w2 (os_path_join carDir [t, s]) = None"
          using l2 by (auto simp: fs1)
        then show ?thesis by (simp add: isfile_iff)
      next
        case False
        have "lookup w2 (os_path_join carDir [t, s]) = lookup w (os_path_join carDir [t, s])"
          using l2 False by (auto simp: fs1 s1)
        with False show ?thesis by (simp add: isfile_iff)
      qed
      with a show ?thesis by simp
    qed
  qed
  have c2: "\<forall>s. lookup w2 (os_path_join carDir [trackName, s]) = lookup w (os_path_join carDir [trackName, s])"
    using l2 by (auto simp: s1)
  show ?thesis by (intro exI[of _ w2] conjI r c1 c2)
qed

subsection \<open>init\<close>

text \<open>
  For one car: every setup \<open>n\<close> of a track \<open>t\<close> is renamed to \<open>t-n\<close> and then copied to
  every track, provided the new names are free.
\<close>

lemma rename_setups_ok:
  assumes "distinct ns" "isdir w tp" "wf_world w"
    and "\<forall>n\<in>set ns. isfile w (os_path_join tp [n])"
    and "\<forall>n\<in>set ns. lookup w (os_path_join tp [t @ ''-'' @ n]) = None"
  shows "\<exists>w'. rename_setups tp t ns acc w = (Inr (acc @ map (\<lambda>n. os_path_join tp [t @ ''-'' @ n]) ns), w')
     \<and> wf_world w'
     \<and> (\<forall>n\<in>set ns. lookup w' (os_path_join tp [t @ ''-'' @ n]) = lookup w (os_path_join tp [n]))
     \<and> (\<forall>n\<in>set ns. lookup w' (os_path_join tp [n]) = None)
     \<and> (\<forall>q. (\<forall>n\<in>set ns. q \<noteq> os_path_join tp [n] \<and> q \<noteq> os_path_join tp [t @ ''-'' @ n]) \<longrightarrow> lookup w' q = lookup w q)
     \<and> (\<forall>p. p \<noteq> tp \<longrightarrow> children p (files w') = children p (files w))"
  using assms
proof (induction ns arbitrary: w acc)
  case Nil
  then show ?case by simp
next
  case (Cons n ns)
  let ?src = "\<lambda>n. os_path_join tp [n]"
  let ?dst = "\<lambda>n. os_path_join tp [t @ ''-'' @ n]"
  from Cons.prems(4) obtain b where b: "lookup w (?src n) = Some (File b)" by (auto simp: isfile_iff)
  have free: "lookup w (?dst n) = None" using Cons.prems(5) by simp
  define w1 where "w1 = w\<lparr>files := AList.update (?dst n) (File b) (AList.delete (?src n) (files w)),
                journal := journal w @ [Move (?src n) (?dst n)]\<rparr>"
  have mv: "shutil_move (?src n) (?dst n) w = (Inr (), w1)"
    unfolding w1_def using b free Cons.prems(2) by (intro move_ok) simp_all
  have l1: "\<And>q. lookup w1 q = (if q = ?dst n then Some (File b) else if q = ?src n then None else lookup w q)"
    unfolding w1_def by (rule lookup_move)
  have wf1: "wf_world w1" unfolding w1_def using Cons.prems(3) by (rule wf_move)
  have ch1: "\<And>p. p \<noteq> tp \<Longrightarrow> children p (files w1) = children p (files w)"
    unfolding w1_def by (rule children_move)
  have nn: "n \<notin> set ns" using Cons.prems(1) by simp
  have A: "\<And>n'. n' \<in> set ns \<Longrightarrow> ?src n' \<noteq> ?dst n"
  proof
    fix n' assume "n' \<in> set ns" "?src n' = ?dst n"
    with Cons.prems(4) free show False by (auto simp: isfile_iff)
  qed
  have B: "\<And>n'. n' \<in> set ns \<Longrightarrow> ?dst n' \<noteq> ?src n"
  proof
    fix n' assume "n' \<in> set ns" "?dst n' = ?src n"
    with Cons.prems(5) b show False by auto
  qed
  have C: "\<And>n'. n' \<in> set ns \<Longrightarrow> ?src n' \<noteq> ?src n" using nn by auto
  have D: "\<And>n'. n' \<in> set ns \<Longrightarrow> ?dst n' \<noteq> ?dst n" using nn by auto
  have d1: "isdir w1 tp" using Cons.prems(2) by (simp add: isdir_iff l1)
  have f1: "\<forall>n'\<in>set ns. isfile w1 (?src n')"
    using Cons.prems(4) A C by (simp add: isfile_iff l1)
  have g1: "\<forall>n'\<in>set ns. lookup w1 (?dst n') = None"
    using Cons.prems(5) D by (simp add: l1)
  have dn: "distinct ns" using Cons.prems(1) by simp
  from Cons.IH[OF dn d1 wf1 f1 g1, of "acc @ [?dst n]"] obtain w2 where
    r: "rename_setups tp t ns (acc @ [?dst n]) w1 = (Inr ((acc @ [?dst n]) @ map ?dst ns), w2)"
    and wf2: "wf_world w2"
    and i1: "\<forall>n'\<in>set ns. lookup w2 (?dst n') = lookup w1 (?src n')"
    and i2: "\<forall>n'\<in>set ns. lookup w2 (?src n') = None"
    and i3: "\<forall>q. (\<forall>n'\<in>set ns. q \<noteq> ?src n' \<and> q \<noteq> ?dst n') \<longrightarrow> lookup w2 q = lookup w1 q"
    and i4: "\<forall>p. p \<noteq> tp \<longrightarrow> children p (files w2) = children p (files w1)"
    by blast
  have run: "rename_setups tp t (n # ns) acc w = (Inr (acc @ map ?dst (n # ns)), w2)"
    using mv r by (simp add: Let_def)
  have c1: "\<forall>n'\<in>set (n # ns). lookup w2 (?dst n') = lookup w (?src n')"
  proof
    fix n' assume n': "n' \<in> set (n # ns)"
    show "lookup w2 (?dst n') = lookup w (?src n')"
    proof (cases "n' \<in> set ns")
      case True
      with i1 have "lookup w2 (?dst n') = lookup w1 (?src n')" by simp
      also have "\<dots> = lookup w (?src n')" using A[OF True] C[OF True] by (simp add: l1)
      finally show ?thesis .
    next
      case False
      with n' have e: "n' = n" by simp
      have "\<forall>k\<in>set ns. ?dst n \<noteq> ?src k \<and> ?dst n \<noteq> ?dst k" using A D by metis
      with i3 have "lookup w2 (?dst n) = lookup w1 (?dst n)" by simp
      then show ?thesis using e b by (simp add: l1)
    qed
  qed
  have c2: "\<forall>n'\<in>set (n # ns). lookup w2 (?src n') = None"
  proof
    fix n' assume n': "n' \<in> set (n # ns)"
    show "lookup w2 (?src n') = None"
    proof (cases "n' \<in> set ns")
      case True
      with i2 show ?thesis by simp
    next
      case False
      with n' have e: "n' = n" by simp
      have "\<forall>k\<in>set ns. ?src n \<noteq> ?src k \<and> ?src n \<noteq> ?dst k" using B C by metis
      with i3 have "lookup w2 (?src n) = lookup w1 (?src n)" by simp
      moreover have "?src n \<noteq> ?dst n" using b free by auto
      ultimately show ?thesis using e by (simp add: l1)
    qed
  qed
  have c3: "\<forall>q. (\<forall>n'\<in>set (n # ns). q \<noteq> ?src n' \<and> q \<noteq> ?dst n') \<longrightarrow> lookup w2 q = lookup w q"
    using i3 by (simp add: l1)
  have c4: "\<forall>p. p \<noteq> tp \<longrightarrow> children p (files w2) = children p (files w)"
    using i4 ch1 by simp
  show ?case by (intro exI[of _ w2] conjI run wf2 c1 c2 c3 c4)
qed

lemma rename_tracks_ok:
  assumes "distinct ts" "wf_world w" "\<forall>t\<in>set ts. isdir w (os_path_join cp [t])"
    and "\<forall>t\<in>set ts. \<forall>n. isfile w (os_path_join cp [t, n]) \<longrightarrow> lookup w (os_path_join cp [t, t @ ''-'' @ n]) = None"
  shows "\<exists>w' paths. rename_tracks cp ts acc w = (Inr (acc @ paths), w') \<and> wf_world w'
    \<and> set paths = {os_path_join cp [t, t @ ''-'' @ n] | t n. t \<in> set ts \<and> isfile w (os_path_join cp [t, n])}
    \<and> (\<forall>t\<in>set ts. \<forall>n. isfile w (os_path_join cp [t, n]) \<longrightarrow>
          lookup w' (os_path_join cp [t, t @ ''-'' @ n]) = lookup w (os_path_join cp [t, n]))
    \<and> (\<forall>t\<in>set ts. \<forall>n. isfile w (os_path_join cp [t, n]) \<longrightarrow> lookup w' (os_path_join cp [t, n]) = None)
    \<and> (\<forall>q. (\<forall>t\<in>set ts. \<forall>n. isfile w (os_path_join cp [t, n]) \<longrightarrow>
                q \<noteq> os_path_join cp [t, n] \<and> q \<noteq> os_path_join cp [t, t @ ''-'' @ n]) \<longrightarrow> lookup w' q = lookup w q)
    \<and> (\<forall>p. (\<forall>t\<in>set ts. p \<noteq> os_path_join cp [t]) \<longrightarrow> children p (files w') = children p (files w))"
  using assms
proof (induction ts arbitrary: w acc)
  case Nil
  then show ?case by (intro exI[of _ w] exI[of _ "[]"]) simp
next
  case (Cons t ts)
  let ?tp = "os_path_join cp [t]"
  have dtp: "isdir w ?tp" using Cons.prems(3) by simp
  from list_dir_files[OF Cons.prems(2) dtp] obtain ns where
    ld: "list_dir ?tp True False w = Inr ns" and dns: "distinct ns"
    and sns: "set ns = {n. isfile w (os_path_join cp [t, n])}" by (auto simp: join_join)
  have f0: "\<forall>n\<in>set ns. isfile w (os_path_join ?tp [n])" using sns by (simp add: join_join)
  have g0: "\<forall>n\<in>set ns. lookup w (os_path_join ?tp [t @ ''-'' @ n]) = None"
    using sns Cons.prems(4) by (simp add: join_join)
  from rename_setups_ok[OF dns dtp Cons.prems(2) f0 g0, of acc] obtain w1 where
    r1: "rename_setups ?tp t ns acc w = (Inr (acc @ map (\<lambda>n. os_path_join ?tp [t @ ''-'' @ n]) ns), w1)"
    and wf1: "wf_world w1"
    and a1: "\<forall>n\<in>set ns. lookup w1 (os_path_join cp [t, t @ ''-'' @ n]) = lookup w (os_path_join cp [t, n])"
    and a2: "\<forall>n\<in>set ns. lookup w1 (os_path_join cp [t, n]) = None"
    and a3: "\<forall>q. (\<forall>n\<in>set ns. q \<noteq> os_path_join cp [t, n] \<and> q \<noteq> os_path_join cp [t, t @ ''-'' @ n]) \<longrightarrow> lookup w1 q = lookup w q"
    and a4: "\<forall>p. p \<noteq> ?tp \<longrightarrow> children p (files w1) = children p (files w)"
    unfolding join_join by blast
  have tn: "t \<notin> set ts" and dts: "distinct ts" using Cons.prems(1) by simp_all
  have same: "\<And>t' x. t' \<in> set ts \<Longrightarrow> lookup w1 (os_path_join cp [t', x]) = lookup w (os_path_join cp [t', x])"
  proof -
    fix t' x assume "t' \<in> set ts"
    with tn have "t' \<noteq> t" by auto
    then have "\<forall>n\<in>set ns. os_path_join cp [t', x] \<noteq> os_path_join cp [t, n]
        \<and> os_path_join cp [t', x] \<noteq> os_path_join cp [t, t @ ''-'' @ n]" by simp
    with a3 show "lookup w1 (os_path_join cp [t', x]) = lookup w (os_path_join cp [t', x])"
      by blast
  qed
  have same1: "\<And>t'. lookup w1 (os_path_join cp [t']) = lookup w (os_path_join cp [t'])"
    using a3 by simp
  have d1: "\<forall>t'\<in>set ts. isdir w1 (os_path_join cp [t'])"
    using Cons.prems(3) by (simp add: isdir_iff same1)
  have fr1: "\<forall>t'\<in>set ts. \<forall>n. isfile w1 (os_path_join cp [t', n]) \<longrightarrow> lookup w1 (os_path_join cp [t', t' @ ''-'' @ n]) = None"
    using Cons.prems(4) by (simp add: isfile_iff same)
  from Cons.IH[OF dts wf1 d1 fr1, of "acc @ map (\<lambda>n. os_path_join ?tp [t @ ''-'' @ n]) ns"] obtain w2 paths where
    r2: "rename_tracks cp ts (acc @ map (\<lambda>n. os_path_join ?tp [t @ ''-'' @ n]) ns) w1
          = (Inr ((acc @ map (\<lambda>n. os_path_join ?tp [t @ ''-'' @ n]) ns) @ paths), w2)"
    and wf2: "wf_world w2"
    and b0: "set paths = {os_path_join cp [t', t' @ ''-'' @ n] | t' n. t' \<in> set ts \<and> isfile w1 (os_path_join cp [t', n])}"
    and b1: "\<forall>t'\<in>set ts. \<forall>n. isfile w1 (os_path_join cp [t', n]) \<longrightarrow>
          lookup w2 (os_path_join cp [t', t' @ ''-'' @ n]) = lookup w1 (os_path_join cp [t', n])"
    and b2: "\<forall>t'\<in>set ts. \<forall>n. isfile w1 (os_path_join cp [t', n]) \<longrightarrow> lookup w2 (os_path_join cp [t', n]) = None"
    and b3: "\<forall>q. (\<forall>t'\<in>set ts. \<forall>n. isfile w1 (os_path_join cp [t', n]) \<longrightarrow>
                q \<noteq> os_path_join cp [t', n] \<and> q \<noteq> os_path_join cp [t', t' @ ''-'' @ n]) \<longrightarrow> lookup w2 q = lookup w1 q"
    and b4: "\<forall>p. (\<forall>t'\<in>set ts. p \<noteq> os_path_join cp [t']) \<longrightarrow> children p (files w2) = children p (files w1)"
    by blast
  have fs: "\<And>t' n. t' \<in> set ts \<Longrightarrow> isfile w1 (os_path_join cp [t', n]) = isfile w (os_path_join cp [t', n])"
    by (simp add: isfile_iff same)
  let ?paths = "map (\<lambda>n. os_path_join ?tp [t @ ''-'' @ n]) ns @ paths"
  have run: "rename_tracks cp (t # ts) acc w = (Inr (acc @ ?paths), w2)"
    using ld r1 r2 by (simp add: Let_def)
  have c0: "set ?paths = {os_path_join cp [t', t' @ ''-'' @ n] | t' n. t' \<in> set (t # ts) \<and> isfile w (os_path_join cp [t', n])}"
    using b0 sns fs by (auto simp: join_join)
  have keep: "\<And>x. lookup w2 (os_path_join cp [t, x]) = lookup w1 (os_path_join cp [t, x])"
  proof -
    fix x
    have "\<forall>t'\<in>set ts. \<forall>n. isfile w1 (os_path_join cp [t', n]) \<longrightarrow>
        os_path_join cp [t, x] \<noteq> os_path_join cp [t', n]
        \<and> os_path_join cp [t, x] \<noteq> os_path_join cp [t', t' @ ''-'' @ n]"
      using tn by auto
    with b3 show "lookup w2 (os_path_join cp [t, x]) = lookup w1 (os_path_join cp [t, x])"
      by blast
  qed
  have c1: "\<forall>t'\<in>set (t # ts). \<forall>n. isfile w (os_path_join cp [t', n]) \<longrightarrow>
          lookup w2 (os_path_join cp [t', t' @ ''-'' @ n]) = lookup w (os_path_join cp [t', n])"
    using b1 a1 sns by (auto simp: fs same keep)
  have c2: "\<forall>t'\<in>set (t # ts). \<forall>n. isfile w (os_path_join cp [t', n]) \<longrightarrow> lookup w2 (os_path_join cp [t', n]) = None"
    using b2 a2 sns by (auto simp: fs keep)
  have c3: "\<forall>q. (\<forall>t'\<in>set (t # ts). \<forall>n. isfile w (os_path_join cp [t', n]) \<longrightarrow>
                q \<noteq> os_path_join cp [t', n] \<and> q \<noteq> os_path_join cp [t', t' @ ''-'' @ n]) \<longrightarrow> lookup w2 q = lookup w q"
  proof (intro allI impI)
    fix q
    assume h: "\<forall>t'\<in>set (t # ts). \<forall>n. isfile w (os_path_join cp [t', n]) \<longrightarrow>
                q \<noteq> os_path_join cp [t', n] \<and> q \<noteq> os_path_join cp [t', t' @ ''-'' @ n]"
    then have "\<forall>t'\<in>set ts. \<forall>n. isfile w1 (os_path_join cp [t', n]) \<longrightarrow>
                q \<noteq> os_path_join cp [t', n] \<and> q \<noteq> os_path_join cp [t', t' @ ''-'' @ n]"
      by (simp add: fs)
    with b3 have "lookup w2 q = lookup w1 q" by blast
    moreover from h sns have "\<forall>n\<in>set ns. q \<noteq> os_path_join cp [t, n] \<and> q \<noteq> os_path_join cp [t, t @ ''-'' @ n]"
      by simp
    with a3 have "lookup w1 q = lookup w q" by blast
    ultimately show "lookup w2 q = lookup w q" by simp
  qed
  have c4: "\<forall>p. (\<forall>t'\<in>set (t # ts). p \<noteq> os_path_join cp [t']) \<longrightarrow> children p (files w2) = children p (files w)"
    using a4 b4 by simp
  show ?case by (intro exI[of _ w2] exI[of _ ?paths] conjI run wf2 c0 c1 c2 c3 c4)
qed

lemma copy_setup_eq:
  "copy_setup cp (os_path_join cp [t, x]) w = copy_changes cp t (os_path_join cp [t, x]) x w"
proof -
  have "(\<lambda>track w.
        let trackPath = os_path_join cp [track];
            targetPath = os_path_join trackPath [basename (os_path_join cp [t, x])]
        in if os_path_join cp [t, x] = targetPath then (Inr (), w)
           else shutil_copyfile (os_path_join cp [t, x]) targetPath w)
     = (\<lambda>track w.
        if track = t then (Inr (), w)
        else shutil_copyfile (os_path_join cp [t, x]) (os_path_join cp [track, x]) w)"
    by (intro ext) (auto simp: Let_def join_join)
  then show ?thesis by (simp add: copy_setup_def copy_changes_def)
qed

lemma copy_all_ok:
  assumes "\<forall>t\<in>set ACC_TRACK_FOLDERS. isdir w (os_path_join cp [t])"
    and "\<forall>p\<in>set paths. \<exists>t x. p = os_path_join cp [t, x] \<and> isfile w p
          \<and> (\<forall>t'\<in>set ACC_TRACK_FOLDERS. t' \<noteq> t \<longrightarrow> \<not> isdir w (os_path_join cp [t', x]))
          \<and> (\<forall>t'. t' \<noteq> t \<longrightarrow> os_path_join cp [t', x] \<notin> set paths)"
  shows "\<exists>w'. for_each (copy_setup cp) paths w = (Inr (), w')
    \<and> (wf_world w \<longrightarrow> wf_world w')
    \<and> (\<forall>t x. os_path_join cp [t, x] \<in> set paths \<longrightarrow>
          (\<forall>t'\<in>set ACC_TRACK_FOLDERS. lookup w' (os_path_join cp [t', x]) = lookup w (os_path_join cp [t, x])))
    \<and> (\<forall>q. (\<forall>t x. os_path_join cp [t, x] \<in> set paths \<longrightarrow>
                (\<forall>t'\<in>set ACC_TRACK_FOLDERS. t' \<noteq> t \<longrightarrow> q \<noteq> os_path_join cp [t', x])) \<longrightarrow> lookup w' q = lookup w q)
    \<and> (\<forall>p. (\<forall>t. p \<noteq> os_path_join cp [t]) \<longrightarrow> children p (files w') = children p (files w))"
  using assms
proof (induction paths arbitrary: w)
  case Nil
  then show ?case by simp
next
  case (Cons p paths)
  from Cons.prems(2) obtain t x where
    p: "p = os_path_join cp [t, x]" and pf: "isfile w p"
    and pt: "\<And>t'. t' \<in> set ACC_TRACK_FOLDERS \<Longrightarrow> t' \<noteq> t \<Longrightarrow> \<not> isdir w (os_path_join cp [t', x])"
    and pn: "\<And>t'. t' \<noteq> t \<Longrightarrow> os_path_join cp [t', x] \<notin> set (p # paths)"
    by (metis list.set_intros(1))
  from pf obtain b where b: "lookup w p = Some (File b)" by (auto simp: isfile_iff)
  have nd: "\<forall>t'\<in>set ACC_TRACK_FOLDERS. \<not> isdir w (os_path_join cp [t', x])"
  proof
    fix t' assume "t' \<in> set ACC_TRACK_FOLDERS"
    then show "\<not> isdir w (os_path_join cp [t', x])"
      using pt[of t'] b p by (cases "t' = t") (simp_all add: isdir_iff)
  qed
  from copy_changes_ok[OF b p Cons.prems(1) nd] obtain w1 where
    r1: "copy_changes cp t p x w = (Inr (), w1)"
    and a1: "\<forall>t'\<in>set ACC_TRACK_FOLDERS. t' \<noteq> t \<longrightarrow> lookup w1 (os_path_join cp [t', x]) = Some (File b)"
    and a2: "lookup w1 p = Some (File b)"
    and a3: "\<forall>q. (\<forall>t'\<in>set ACC_TRACK_FOLDERS. q \<noteq> os_path_join cp [t', x]) \<longrightarrow> lookup w1 q = lookup w q"
    unfolding copy_changes_def by blast
  have s1: "copy_setup cp p w = (Inr (), w1)" using r1 by (simp add: p copy_setup_eq)
  have fr: "wf_world w \<longrightarrow> wf_world w1"
    and ch: "\<forall>q. (\<forall>t. q \<noteq> os_path_join cp [t]) \<longrightarrow> children q (files w1) = children q (files w)"
    using copy_changes_frame[of w cp t p x] r1 by simp_all
  have F1: "\<And>q. (\<forall>t'\<in>set ACC_TRACK_FOLDERS. t' \<noteq> t \<longrightarrow> q \<noteq> os_path_join cp [t', x]) \<Longrightarrow> lookup w1 q = lookup w q"
  proof -
    fix q assume h: "\<forall>t'\<in>set ACC_TRACK_FOLDERS. t' \<noteq> t \<longrightarrow> q \<noteq> os_path_join cp [t', x]"
    show "lookup w1 q = lookup w q"
    proof (cases "q = p")
      case True
      with a2 b show ?thesis by simp
    next
      case False
      with h p have "\<forall>t'\<in>set ACC_TRACK_FOLDERS. q \<noteq> os_path_join cp [t', x]" by auto
      with a3 show ?thesis by blast
    qed
  qed
  have V: "\<And>q. q \<in> set (p # paths) \<Longrightarrow> lookup w1 q = lookup w q"
  proof -
    fix q assume "q \<in> set (p # paths)"
    with pn have "\<forall>t'\<in>set ACC_TRACK_FOLDERS. t' \<noteq> t \<longrightarrow> q \<noteq> os_path_join cp [t', x]" by auto
    then show "lookup w1 q = lookup w q" by (rule F1)
  qed
  have d1: "\<forall>t'\<in>set ACC_TRACK_FOLDERS. isdir w1 (os_path_join cp [t'])"
    using Cons.prems(1) a3 by (simp add: isdir_iff)
  have h1: "\<forall>p'\<in>set paths. \<exists>t x. p' = os_path_join cp [t, x] \<and> isfile w1 p'
          \<and> (\<forall>t'\<in>set ACC_TRACK_FOLDERS. t' \<noteq> t \<longrightarrow> \<not> isdir w1 (os_path_join cp [t', x]))
          \<and> (\<forall>t'. t' \<noteq> t \<longrightarrow> os_path_join cp [t', x] \<notin> set paths)"
  proof
    fix p' assume m: "p' \<in> set paths"
    with Cons.prems(2) obtain t2 x2 where
      p2: "p' = os_path_join cp [t2, x2]" and f2: "isfile w p'"
      and n2: "\<forall>t'\<in>set ACC_TRACK_FOLDERS. t' \<noteq> t2 \<longrightarrow> \<not> isdir w (os_path_join cp [t', x2])"
      and n3: "\<forall>t'. t' \<noteq> t2 \<longrightarrow> os_path_join cp [t', x2] \<notin> set (p # paths)"
      by (metis list.set_intros(2))
    have "isfile w1 p'" using f2 V[of p'] m by (simp add: isfile_iff)
    moreover have "\<forall>t'. t' \<noteq> t2 \<longrightarrow> os_path_join cp [t', x2] \<notin> set paths"
      using n3 by simp
    moreover have "\<forall>t'\<in>set ACC_TRACK_FOLDERS. t' \<noteq> t2 \<longrightarrow> \<not> isdir w1 (os_path_join cp [t', x2])"
    proof (intro ballI impI)
      fix t' assume ta: "t' \<in> set ACC_TRACK_FOLDERS" and ne: "t' \<noteq> t2"
      show "\<not> isdir w1 (os_path_join cp [t', x2])"
      proof (cases "t' \<in> set ACC_TRACK_FOLDERS \<and> t' \<noteq> t \<and> x2 = x")
        case True
        with a1 show ?thesis by (simp add: isdir_iff)
      next
        case False
        then have "\<forall>t''\<in>set ACC_TRACK_FOLDERS. t'' \<noteq> t \<longrightarrow> os_path_join cp [t', x2] \<noteq> os_path_join cp [t'', x]"
          by auto
        then have "lookup w1 (os_path_join cp [t', x2]) = lookup w (os_path_join cp [t', x2])" by (rule F1)
        with n2 ne ta show ?thesis by (simp add: isdir_iff)
      qed
    qed
    ultimately show "\<exists>t x. p' = os_path_join cp [t, x] \<and> isfile w1 p'
          \<and> (\<forall>t'\<in>set ACC_TRACK_FOLDERS. t' \<noteq> t \<longrightarrow> \<not> isdir w1 (os_path_join cp [t', x]))
          \<and> (\<forall>t'. t' \<noteq> t \<longrightarrow> os_path_join cp [t', x] \<notin> set paths)"
      using p2 by blast
  qed
  from Cons.IH[OF d1 h1] obtain w2 where
    r2: "for_each (copy_setup cp) paths w1 = (Inr (), w2)"
    and wf2: "wf_world w1 \<longrightarrow> wf_world w2"
    and b1: "\<forall>t x. os_path_join cp [t, x] \<in> set paths \<longrightarrow>
          (\<forall>t'\<in>set ACC_TRACK_FOLDERS. lookup w2 (os_path_join cp [t', x]) = lookup w1 (os_path_join cp [t, x]))"
    and b2: "\<forall>q. (\<forall>t x. os_path_join cp [t, x] \<in> set paths \<longrightarrow>
                (\<forall>t'\<in>set ACC_TRACK_FOLDERS. t' \<noteq> t \<longrightarrow> q \<noteq> os_path_join cp [t', x])) \<longrightarrow> lookup w2 q = lookup w1 q"
    and b3: "\<forall>p. (\<forall>t. p \<noteq> os_path_join cp [t]) \<longrightarrow> children p (files w2) = children p (files w1)"
    by blast
  have run: "for_each (copy_setup cp) (p # paths) w = (Inr (), w2)" using s1 r2 by simp
  have c0: "wf_world w \<longrightarrow> wf_world w2" using fr wf2 by simp
  have c1: "\<forall>t3 x3. os_path_join cp [t3, x3] \<in> set (p # paths) \<longrightarrow>
          (\<forall>t'\<in>set ACC_TRACK_FOLDERS. lookup w2 (os_path_join cp [t', x3]) = lookup w (os_path_join cp [t3, x3]))"
  proof (intro allI impI ballI)
    fix t3 x3 t'
    assume m: "os_path_join cp [t3, x3] \<in> set (p # paths)" and t': "t' \<in> set ACC_TRACK_FOLDERS"
    show "lookup w2 (os_path_join cp [t', x3]) = lookup w (os_path_join cp [t3, x3])"
    proof (cases "os_path_join cp [t3, x3] \<in> set paths")
      case True
      with b1 t' have "lookup w2 (os_path_join cp [t', x3]) = lookup w1 (os_path_join cp [t3, x3])" by blast
      with V[OF m] show ?thesis by simp
    next
      case False
      with m p have e: "t3 = t" "x3 = x" by simp_all
      have nt: "\<And>t4. os_path_join cp [t4, x] \<notin> set paths"
      proof
        fix t4 assume i: "os_path_join cp [t4, x] \<in> set paths"
        show False
        proof (cases "t4 = t")
          case True
          with i False e show False by simp
        next
          case False
          from pn[OF False] i show False by simp
        qed
      qed
      have "\<forall>t4 x4. os_path_join cp [t4, x4] \<in> set paths \<longrightarrow>
                (\<forall>t''\<in>set ACC_TRACK_FOLDERS. t'' \<noteq> t4 \<longrightarrow> os_path_join cp [t', x] \<noteq> os_path_join cp [t'', x4])"
        using nt by auto
      with b2 have "lookup w2 (os_path_join cp [t', x]) = lookup w1 (os_path_join cp [t', x])" by blast
      also have "\<dots> = Some (File b)" using a1 a2 t' p by (cases "t' = t") simp_all
      finally show ?thesis using e b p by simp
    qed
  qed
  have c2: "\<forall>q. (\<forall>t3 x3. os_path_join cp [t3, x3] \<in> set (p # paths) \<longrightarrow>
                (\<forall>t'\<in>set ACC_TRACK_FOLDERS. t' \<noteq> t3 \<longrightarrow> q \<noteq> os_path_join cp [t', x3])) \<longrightarrow> lookup w2 q = lookup w q"
  proof (intro allI impI)
    fix q
    assume h: "\<forall>t3 x3. os_path_join cp [t3, x3] \<in> set (p # paths) \<longrightarrow>
                (\<forall>t'\<in>set ACC_TRACK_FOLDERS. t' \<noteq> t3 \<longrightarrow> q \<noteq> os_path_join cp [t', x3])"
    then have "\<forall>t3 x3. os_path_join cp [t3, x3] \<in> set paths \<longrightarrow>
                (\<forall>t'\<in>set ACC_TRACK_FOLDERS. t' \<noteq> t3 \<longrightarrow> q \<noteq> os_path_join cp [t', x3])" by simp
    with b2 have "lookup w2 q = lookup w1 q" by blast
    moreover from h p have "\<forall>t'\<in>set ACC_TRACK_FOLDERS. t' \<noteq> t \<longrightarrow> q \<noteq> os_path_join cp [t', x]" by simp
    then have "lookup w1 q = lookup w q" by (rule F1)
    ultimately show "lookup w2 q = lookup w q" by simp
  qed
  have c3: "\<forall>p. (\<forall>t. p \<noteq> os_path_join cp [t]) \<longrightarrow> children p (files w2) = children p (files w)"
    using ch b3 by simp
  show ?case by (intro exI[of _ w2] conjI run c0 c1 c2 c3)
qed

lemma init_car_ok:
  assumes wf: "wf_world w"
    and cp: "cp = os_path_join setupsPath [car]"
    and car: "isdir w cp"
    and nosquat: "\<forall>t\<in>set ACC_TRACK_FOLDERS. \<not> isfile w (os_path_join cp [t])"
    and fresh: "\<forall>t\<in>set ACC_TRACK_FOLDERS. \<forall>n. isfile w (os_path_join cp [t, n]) \<longrightarrow>
        (\<forall>t'\<in>set ACC_TRACK_FOLDERS. lookup w (os_path_join cp [t', t @ ''-'' @ n]) = None)"
  shows "\<exists>w'. init_car setupsPath car w = (Inr (), w') \<and> wf_world w'
     \<and> (\<forall>t\<in>set ACC_TRACK_FOLDERS. isdir w' (os_path_join cp [t]))
     \<and> (\<forall>t\<in>set ACC_TRACK_FOLDERS. \<forall>n. isfile w (os_path_join cp [t, n]) \<longrightarrow>
           (\<forall>t'\<in>set ACC_TRACK_FOLDERS. lookup w' (os_path_join cp [t', t @ ''-'' @ n]) = lookup w (os_path_join cp [t, n])))
     \<and> (\<forall>t\<in>set ACC_TRACK_FOLDERS. \<forall>n. isfile w (os_path_join cp [t, n]) \<longrightarrow> lookup w' (os_path_join cp [t, n]) = None)
     \<and> (\<forall>q. (\<forall>t\<in>set ACC_TRACK_FOLDERS. q \<noteq> os_path_join cp [t]
              \<and> (\<forall>n. isfile w (os_path_join cp [t, n]) \<longrightarrow> q \<noteq> os_path_join cp [t, n]
                    \<and> (\<forall>t'\<in>set ACC_TRACK_FOLDERS. q \<noteq> os_path_join cp [t', t @ ''-'' @ n])))
           \<longrightarrow> lookup w' q = lookup w q)
     \<and> (\<forall>p. p \<noteq> cp \<and> (\<forall>t. p \<noteq> os_path_join cp [t]) \<longrightarrow> children p (files w') = children p (files w))"
proof -
  let ?T = "set ACC_TRACK_FOLDERS"
  from create_track_dirs_ok[OF car nosquat] obtain w1 where
    cr: "create_track_dirs cp w = (Inr (), w1)"
    and d1: "\<forall>t\<in>?T. isdir w1 (os_path_join cp [t])"
    and f1: "\<forall>q. (\<forall>t\<in>?T. q \<noteq> os_path_join cp [t]) \<longrightarrow> lookup w1 q = lookup w q"
    and wf1': "wf_world w \<longrightarrow> wf_world w1"
    by blast
  have wf1: "wf_world w1" using wf wf1' by simp
  have ch1: "\<And>p. p \<noteq> cp \<Longrightarrow> children p (files w1) = children p (files w)"
    using create_track_dirs_children[of _ cp w] cr by simp
  have s1: "\<And>t x. lookup w1 (os_path_join cp [t, x]) = lookup w (os_path_join cp [t, x])"
    using f1 by simp
  have fs1: "\<And>t n. isfile w1 (os_path_join cp [t, n]) = isfile w (os_path_join cp [t, n])"
    by (simp add: isfile_iff s1)
  have fresh1: "\<forall>t\<in>?T. \<forall>n. isfile w1 (os_path_join cp [t, n]) \<longrightarrow>
      lookup w1 (os_path_join cp [t, t @ ''-'' @ n]) = None"
    using fresh by (simp add: fs1 s1)
  from rename_tracks_ok[OF distinct_tracks wf1 d1 fresh1, of "[]"] obtain w2 paths where
    rn: "rename_tracks cp ACC_TRACK_FOLDERS [] w1 = (Inr ([] @ paths), w2)"
    and wf2: "wf_world w2"
    and ps': "set paths = {os_path_join cp [t, t @ ''-'' @ n] | t n. t \<in> ?T \<and> isfile w1 (os_path_join cp [t, n])}"
    and r1': "\<forall>t\<in>?T. \<forall>n. isfile w1 (os_path_join cp [t, n]) \<longrightarrow>
          lookup w2 (os_path_join cp [t, t @ ''-'' @ n]) = lookup w1 (os_path_join cp [t, n])"
    and r2': "\<forall>t\<in>?T. \<forall>n. isfile w1 (os_path_join cp [t, n]) \<longrightarrow> lookup w2 (os_path_join cp [t, n]) = None"
    and r3': "\<forall>q. (\<forall>t\<in>?T. \<forall>n. isfile w1 (os_path_join cp [t, n]) \<longrightarrow>
                q \<noteq> os_path_join cp [t, n] \<and> q \<noteq> os_path_join cp [t, t @ ''-'' @ n]) \<longrightarrow> lookup w2 q = lookup w1 q"
    and r4: "\<forall>p. (\<forall>t\<in>?T. p \<noteq> os_path_join cp [t]) \<longrightarrow> children p (files w2) = children p (files w1)"
    by blast
  have ps: "set paths = {os_path_join cp [t, t @ ''-'' @ n] | t n. t \<in> ?T \<and> isfile w (os_path_join cp [t, n])}"
    using ps' by (simp only: fs1)
  have r1: "\<forall>t\<in>?T. \<forall>n. isfile w (os_path_join cp [t, n]) \<longrightarrow>
          lookup w2 (os_path_join cp [t, t @ ''-'' @ n]) = lookup w (os_path_join cp [t, n])"
    using r1' by (simp only: fs1 s1)
  have r2: "\<forall>t\<in>?T. \<forall>n. isfile w (os_path_join cp [t, n]) \<longrightarrow> lookup w2 (os_path_join cp [t, n]) = None"
    using r2' by (simp only: fs1)
  have r3: "\<forall>q. (\<forall>t\<in>?T. \<forall>n. isfile w (os_path_join cp [t, n]) \<longrightarrow>
                q \<noteq> os_path_join cp [t, n] \<and> q \<noteq> os_path_join cp [t, t @ ''-'' @ n]) \<longrightarrow> lookup w2 q = lookup w1 q"
    using r3' by (simp only: fs1)
  have pE: "\<And>p. p \<in> set paths \<Longrightarrow> \<exists>t n. t \<in> ?T \<and> isfile w (os_path_join cp [t, n]) \<and> p = os_path_join cp [t, t @ ''-'' @ n]"
    using ps by auto
  have pI: "\<And>t n. t \<in> ?T \<Longrightarrow> isfile w (os_path_join cp [t, n]) \<Longrightarrow> os_path_join cp [t, t @ ''-'' @ n] \<in> set paths"
    using ps by auto
  have tgt2: "\<And>t n t'. t \<in> ?T \<Longrightarrow> isfile w (os_path_join cp [t, n]) \<Longrightarrow> t' \<in> ?T \<Longrightarrow> t' \<noteq> t \<Longrightarrow>
      lookup w2 (os_path_join cp [t', t @ ''-'' @ n]) = None"
  proof -
    fix t n t' assume t: "t \<in> ?T" and f: "isfile w (os_path_join cp [t, n])" and t': "t' \<in> ?T" and ne: "t' \<noteq> t"
    let ?q = "os_path_join cp [t', t @ ''-'' @ n]"
    have none: "lookup w ?q = None" using fresh t f t' by blast
    have "\<forall>t5\<in>?T. \<forall>n5. isfile w (os_path_join cp [t5, n5]) \<longrightarrow>
                ?q \<noteq> os_path_join cp [t5, n5] \<and> ?q \<noteq> os_path_join cp [t5, t5 @ ''-'' @ n5]"
    proof (intro ballI allI impI conjI)
      fix t5 n5 assume t5: "t5 \<in> ?T" and f5: "isfile w (os_path_join cp [t5, n5])"
      show "?q \<noteq> os_path_join cp [t5, n5]"
      proof
        assume "?q = os_path_join cp [t5, n5]"
        with f5 none show False by (simp add: isfile_iff)
      qed
      show "?q \<noteq> os_path_join cp [t5, t5 @ ''-'' @ n5]"
      proof
        assume e: "?q = os_path_join cp [t5, t5 @ ''-'' @ n5]"
        then have e1: "t' = t5" and e2: "t @ ''-'' @ n = t5 @ ''-'' @ n5" by simp_all
        from track_prefix_inj[OF t t5 e2] have "t = t5" ..
        with e1 ne show False by simp
      qed
    qed
    with r3 have "lookup w2 ?q = lookup w1 ?q" by blast
    with none show "lookup w2 ?q = None" by (simp add: s1)
  qed
  have d2: "\<forall>t\<in>?T. isdir w2 (os_path_join cp [t])"
  proof
    fix t assume t: "t \<in> ?T"
    have "\<forall>t5\<in>?T. \<forall>n5. isfile w (os_path_join cp [t5, n5]) \<longrightarrow>
        os_path_join cp [t] \<noteq> os_path_join cp [t5, n5] \<and> os_path_join cp [t] \<noteq> os_path_join cp [t5, t5 @ ''-'' @ n5]"
      by simp
    with r3 have "lookup w2 (os_path_join cp [t]) = lookup w1 (os_path_join cp [t])" by blast
    with d1 t show "isdir w2 (os_path_join cp [t])" by (simp add: isdir_iff)
  qed
  have h2: "\<forall>p\<in>set paths. \<exists>t x. p = os_path_join cp [t, x] \<and> isfile w2 p
          \<and> (\<forall>t'\<in>?T. t' \<noteq> t \<longrightarrow> \<not> isdir w2 (os_path_join cp [t', x]))
          \<and> (\<forall>t'. t' \<noteq> t \<longrightarrow> os_path_join cp [t', x] \<notin> set paths)"
  proof
    fix p assume "p \<in> set paths"
    from pE[OF this] obtain t n where t: "t \<in> ?T" and f: "isfile w (os_path_join cp [t, n])"
      and p: "p = os_path_join cp [t, t @ ''-'' @ n]" by blast
    have a: "isfile w2 p" using r1 t f p by (simp add: isfile_iff)
    have b: "\<forall>t'\<in>?T. t' \<noteq> t \<longrightarrow> \<not> isdir w2 (os_path_join cp [t', t @ ''-'' @ n])"
      using tgt2[OF t f] by (simp add: isdir_iff)
    have c: "\<forall>t'. t' \<noteq> t \<longrightarrow> os_path_join cp [t', t @ ''-'' @ n] \<notin> set paths"
    proof (intro allI impI notI)
      fix t' assume ne: "t' \<noteq> t" and m: "os_path_join cp [t', t @ ''-'' @ n] \<in> set paths"
      from pE[OF m] obtain t5 n5 where t5: "t5 \<in> ?T"
        and e: "os_path_join cp [t', t @ ''-'' @ n] = os_path_join cp [t5, t5 @ ''-'' @ n5]" by blast
      then have e1: "t' = t5" and e2: "t @ ''-'' @ n = t5 @ ''-'' @ n5" by simp_all
      from track_prefix_inj[OF t t5 e2] have "t = t5" ..
      with e1 ne show False by simp
    qed
    from p a b c show "\<exists>t x. p = os_path_join cp [t, x] \<and> isfile w2 p
          \<and> (\<forall>t'\<in>?T. t' \<noteq> t \<longrightarrow> \<not> isdir w2 (os_path_join cp [t', x]))
          \<and> (\<forall>t'. t' \<noteq> t \<longrightarrow> os_path_join cp [t', x] \<notin> set paths)" by blast
  qed
  from copy_all_ok[OF d2 h2] obtain w3 where
    cpy: "for_each (copy_setup cp) paths w2 = (Inr (), w3)"
    and wf3': "wf_world w2 \<longrightarrow> wf_world w3"
    and c1: "\<forall>t x. os_path_join cp [t, x] \<in> set paths \<longrightarrow>
          (\<forall>t'\<in>?T. lookup w3 (os_path_join cp [t', x]) = lookup w2 (os_path_join cp [t, x]))"
    and c2: "\<forall>q. (\<forall>t x. os_path_join cp [t, x] \<in> set paths \<longrightarrow>
                (\<forall>t'\<in>?T. t' \<noteq> t \<longrightarrow> q \<noteq> os_path_join cp [t', x])) \<longrightarrow> lookup w3 q = lookup w2 q"
    and c3: "\<forall>p. (\<forall>t. p \<noteq> os_path_join cp [t]) \<longrightarrow> children p (files w3) = children p (files w2)"
    by blast
  have run: "init_car setupsPath car w = (Inr (), w3)"
    using cr rn cpy by (simp add: init_car_def Let_def cp[symmetric])
  have wf3: "wf_world w3" using wf2 wf3' by simp
  have F3: "\<And>q. (\<forall>t\<in>?T. \<forall>n. isfile w (os_path_join cp [t, n]) \<longrightarrow> (\<forall>t'\<in>?T. t' \<noteq> t \<longrightarrow> q \<noteq> os_path_join cp [t', t @ ''-'' @ n]))
      \<Longrightarrow> lookup w3 q = lookup w2 q"
  proof -
    fix q assume h: "\<forall>t\<in>?T. \<forall>n. isfile w (os_path_join cp [t, n]) \<longrightarrow> (\<forall>t'\<in>?T. t' \<noteq> t \<longrightarrow> q \<noteq> os_path_join cp [t', t @ ''-'' @ n])"
    have "\<forall>t x. os_path_join cp [t, x] \<in> set paths \<longrightarrow> (\<forall>t'\<in>?T. t' \<noteq> t \<longrightarrow> q \<noteq> os_path_join cp [t', x])"
    proof (intro allI impI ballI)
      fix t x t' assume m: "os_path_join cp [t, x] \<in> set paths" and t': "t' \<in> ?T" and ne: "t' \<noteq> t"
      from pE[OF m] obtain t5 n5 where t5: "t5 \<in> ?T" and f5: "isfile w (os_path_join cp [t5, n5])"
        and e: "os_path_join cp [t, x] = os_path_join cp [t5, t5 @ ''-'' @ n5]" by blast
      from e have "t = t5" "x = t5 @ ''-'' @ n5" by simp_all
      with h t5 f5 t' ne show "q \<noteq> os_path_join cp [t', x]" by blast
    qed
    with c2 show "lookup w3 q = lookup w2 q" by blast
  qed
  have e0: "\<forall>t\<in>?T. isdir w3 (os_path_join cp [t])"
  proof
    fix t assume t: "t \<in> ?T"
    have "lookup w3 (os_path_join cp [t]) = lookup w2 (os_path_join cp [t])" by (rule F3) simp
    with d2 t show "isdir w3 (os_path_join cp [t])" by (simp add: isdir_iff)
  qed
  have e1: "\<forall>t\<in>?T. \<forall>n. isfile w (os_path_join cp [t, n]) \<longrightarrow>
           (\<forall>t'\<in>?T. lookup w3 (os_path_join cp [t', t @ ''-'' @ n]) = lookup w (os_path_join cp [t, n]))"
  proof (intro ballI allI impI)
    fix t n t' assume t: "t \<in> ?T" and f: "isfile w (os_path_join cp [t, n])" and t': "t' \<in> ?T"
    from c1 pI[OF t f] t' have "lookup w3 (os_path_join cp [t', t @ ''-'' @ n]) = lookup w2 (os_path_join cp [t, t @ ''-'' @ n])"
      by blast
    with r1 t f show "lookup w3 (os_path_join cp [t', t @ ''-'' @ n]) = lookup w (os_path_join cp [t, n])" by simp
  qed
  have e2: "\<forall>t\<in>?T. \<forall>n. isfile w (os_path_join cp [t, n]) \<longrightarrow> lookup w3 (os_path_join cp [t, n]) = None"
  proof (intro ballI allI impI)
    fix t n assume t: "t \<in> ?T" and f: "isfile w (os_path_join cp [t, n])"
    have "lookup w3 (os_path_join cp [t, n]) = lookup w2 (os_path_join cp [t, n])"
    proof (rule F3, intro ballI allI impI notI)
      fix t5 n5 t' assume t5: "t5 \<in> ?T" and f5: "isfile w (os_path_join cp [t5, n5])" and t': "t' \<in> ?T"
        and e: "os_path_join cp [t, n] = os_path_join cp [t', t5 @ ''-'' @ n5]"
      from fresh t5 f5 t' have "lookup w (os_path_join cp [t', t5 @ ''-'' @ n5]) = None" by blast
      with e f show False by (simp add: isfile_iff)
    qed
    with r2 t f show "lookup w3 (os_path_join cp [t, n]) = None" by simp
  qed
  have e3: "\<forall>q. (\<forall>t\<in>?T. q \<noteq> os_path_join cp [t]
              \<and> (\<forall>n. isfile w (os_path_join cp [t, n]) \<longrightarrow> q \<noteq> os_path_join cp [t, n]
                    \<and> (\<forall>t'\<in>?T. q \<noteq> os_path_join cp [t', t @ ''-'' @ n])))
           \<longrightarrow> lookup w3 q = lookup w q"
  proof (intro allI impI)
    fix q assume h: "\<forall>t\<in>?T. q \<noteq> os_path_join cp [t]
              \<and> (\<forall>n. isfile w (os_path_join cp [t, n]) \<longrightarrow> q \<noteq> os_path_join cp [t, n]
                    \<and> (\<forall>t'\<in>?T. q \<noteq> os_path_join cp [t', t @ ''-'' @ n]))"
    have "lookup w3 q = lookup w2 q" by (rule F3) (use h in blast)
    also have "lookup w2 q = lookup w1 q" using r3 h by blast
    also have "lookup w1 q = lookup w q" using f1 h by blast
    finally show "lookup w3 q = lookup w q" .
  qed
  have e4: "\<forall>p. p \<noteq> cp \<and> (\<forall>t. p \<noteq> os_path_join cp [t]) \<longrightarrow> children p (files w3) = children p (files w)"
    using ch1 r4 c3 by simp
  show ?thesis by (intro exI[of _ w3] conjI run wf3 e0 e1 e2 e3 e4)
qed

lemma init_one_car:
  "list_dir sp False True w = Inr [car] \<Longrightarrow> init_car sp car w = (Inr (), w') \<Longrightarrow> init sp w = (Inr (), w')"
  by (simp add: init_def)

lemma init_single_setup:
  assumes wf: "wf_world w"
    and cars: "list_dir sp False True w = Inr [car]"
    and cp: "cp = os_path_join sp [car]"
    and nosquat: "\<forall>t\<in>set ACC_TRACK_FOLDERS. \<not> isfile w (os_path_join cp [t])"
    and only: "\<forall>t\<in>set ACC_TRACK_FOLDERS. \<forall>n. isfile w (os_path_join cp [t, n]) \<longrightarrow> t = ''monza'' \<and> n = ''setup1.json''"
    and src: "lookup w (os_path_join cp [''monza'', ''setup1.json'']) = Some (File b)"
    and fresh: "\<forall>t\<in>set ACC_TRACK_FOLDERS. lookup w (os_path_join cp [t, ''monza-setup1.json'']) = None"
  shows "\<exists>w'. init sp w = (Inr (), w') \<and> wf_world w' \<and> list_dir sp False True w' = Inr [car]
     \<and> (\<forall>t\<in>set ACC_TRACK_FOLDERS. isdir w' (os_path_join cp [t]))
     \<and> (\<forall>t\<in>set ACC_TRACK_FOLDERS. lookup w' (os_path_join cp [t, ''monza-setup1.json'']) = Some (File b))
     \<and> (\<forall>t\<in>set ACC_TRACK_FOLDERS. \<forall>n. isfile w' (os_path_join cp [t, n]) \<longrightarrow> n = ''monza-setup1.json'')
     \<and> (\<forall>q. (\<forall>t\<in>set ACC_TRACK_FOLDERS. q \<noteq> os_path_join cp [t] \<and> q \<noteq> os_path_join cp [t, ''monza-setup1.json''])
             \<and> q \<noteq> os_path_join cp [''monza'', ''setup1.json''] \<longrightarrow> lookup w' q = lookup w q)"
proof -
  let ?T = "set ACC_TRACK_FOLDERS"
  have car: "isdir w cp" unfolding cp using cars by (rule list_dir_dirs_member) simp
  have mf: "isfile w (os_path_join cp [''monza'', ''setup1.json''])" using src by (simp add: isfile_iff)
  have fresh': "\<forall>t\<in>?T. \<forall>n. isfile w (os_path_join cp [t, n]) \<longrightarrow>
        (\<forall>t'\<in>?T. lookup w (os_path_join cp [t', t @ ''-'' @ n]) = None)"
  proof (intro ballI allI impI)
    fix t n t' assume t: "t \<in> ?T" and f: "isfile w (os_path_join cp [t, n])" and t': "t' \<in> ?T"
    from only t f have "t = ''monza''" "n = ''setup1.json''" by simp_all
    then show "lookup w (os_path_join cp [t', t @ ''-'' @ n]) = None" using fresh t' by simp
  qed
  from init_car_ok[OF wf cp car nosquat fresh'] obtain w' where
    run: "init_car sp car w = (Inr (), w')" and wf': "wf_world w'"
    and e0: "\<forall>t\<in>?T. isdir w' (os_path_join cp [t])"
    and e1: "\<forall>t\<in>?T. \<forall>n. isfile w (os_path_join cp [t, n]) \<longrightarrow>
           (\<forall>t'\<in>?T. lookup w' (os_path_join cp [t', t @ ''-'' @ n]) = lookup w (os_path_join cp [t, n]))"
    and e2: "\<forall>t\<in>?T. \<forall>n. isfile w (os_path_join cp [t, n]) \<longrightarrow> lookup w' (os_path_join cp [t, n]) = None"
    and e3: "\<forall>q. (\<forall>t\<in>?T. q \<noteq> os_path_join cp [t]
              \<and> (\<forall>n. isfile w (os_path_join cp [t, n]) \<longrightarrow> q \<noteq> os_path_join cp [t, n]
                    \<and> (\<forall>t'\<in>?T. q \<noteq> os_path_join cp [t', t @ ''-'' @ n])))
           \<longrightarrow> lookup w' q = lookup w q"
    and e4: "\<forall>p. p \<noteq> cp \<and> (\<forall>t. p \<noteq> os_path_join cp [t]) \<longrightarrow> children p (files w') = children p (files w)"
    by blast
  have frame: "\<And>q. (\<forall>t\<in>?T. q \<noteq> os_path_join cp [t] \<and> q \<noteq> os_path_join cp [t, ''monza-setup1.json''])
             \<Longrightarrow> q \<noteq> os_path_join cp [''monza'', ''setup1.json''] \<Longrightarrow> lookup w' q = lookup w q"
  proof -
    fix q
    assume h1: "\<forall>t\<in>?T. q \<noteq> os_path_join cp [t] \<and> q \<noteq> os_path_join cp [t, ''monza-setup1.json'']"
      and h2: "q \<noteq> os_path_join cp [''monza'', ''setup1.json'']"
    have "\<forall>t\<in>?T. q \<noteq> os_path_join cp [t]
              \<and> (\<forall>n. isfile w (os_path_join cp [t, n]) \<longrightarrow> q \<noteq> os_path_join cp [t, n]
                    \<and> (\<forall>t'\<in>?T. q \<noteq> os_path_join cp [t', t @ ''-'' @ n]))"
    proof (intro ballI conjI allI impI)
      fix t assume t: "t \<in> ?T"
      show "q \<noteq> os_path_join cp [t]" using h1 t by simp
      fix n assume f: "isfile w (os_path_join cp [t, n])"
      with only t have tn: "t = ''monza''" "n = ''setup1.json''" by simp_all
      show "q \<noteq> os_path_join cp [t, n]" using h2 tn by simp
      fix t' assume "t' \<in> ?T"
      with h1 tn show "q \<noteq> os_path_join cp [t', t @ ''-'' @ n]" by simp
    qed
    with e3 show "lookup w' q = lookup w q" by blast
  qed
  have i: "init sp w = (Inr (), w')" using cars run by (rule init_one_car)
  have ld: "list_dir sp False True w' = list_dir sp False True w"
  proof (rule list_dir_cong)
    show "lookup w' sp = lookup w sp" by (rule frame) (simp_all add: cp)
    show "children sp (files w') = children sp (files w)" using e4 by (simp add: cp)
    show "\<And>f. lookup w' (os_path_join sp [f]) = lookup w (os_path_join sp [f])"
      by (rule frame) (simp_all add: cp)
  qed
  have monza: "''monza'' \<in> ?T" by (rule monza_track)
  have c1: "\<forall>t\<in>?T. lookup w' (os_path_join cp [t, ''monza-setup1.json'']) = Some (File b)"
    using e1 monza mf src by fastforce
  have gone: "lookup w' (os_path_join cp [''monza'', ''setup1.json'']) = None"
    using e2 monza mf by blast
  have c2: "\<forall>t\<in>?T. \<forall>n. isfile w' (os_path_join cp [t, n]) \<longrightarrow> n = ''monza-setup1.json''"
  proof (intro ballI allI impI, rule ccontr)
    fix t n assume t: "t \<in> ?T" and f: "isfile w' (os_path_join cp [t, n])" and ne: "n \<noteq> ''monza-setup1.json''"
    show False
    proof (cases "t = ''monza'' \<and> n = ''setup1.json''")
      case True
      with f gone show False by (simp add: isfile_iff)
    next
      case False
      then have "os_path_join cp [t, n] \<noteq> os_path_join cp [''monza'', ''setup1.json'']" by simp
      moreover have "\<forall>t'\<in>?T. os_path_join cp [t, n] \<noteq> os_path_join cp [t'] \<and> os_path_join cp [t, n] \<noteq> os_path_join cp [t', ''monza-setup1.json'']"
        using ne by simp
      ultimately have "lookup w' (os_path_join cp [t, n]) = lookup w (os_path_join cp [t, n])"
        using frame by blast
      with f have "isfile w (os_path_join cp [t, n])" by (simp add: isfile_iff)
      with only t False show False by blast
    qed
  qed
  have c3: "\<forall>q. (\<forall>t\<in>?T. q \<noteq> os_path_join cp [t] \<and> q \<noteq> os_path_join cp [t, ''monza-setup1.json''])
             \<and> q \<noteq> os_path_join cp [''monza'', ''setup1.json''] \<longrightarrow> lookup w' q = lookup w q"
    using frame by blast
  have ld': "list_dir sp False True w' = Inr [car]" using ld cars by simp
  show ?thesis by (intro exI[of _ w'] conjI i wf' ld' e0 c1 c2 c3)
qed

subsection \<open>The example car\<close>

text \<open>
  Lookups in the trees of the examples.
\<close>

lemma map_of_tracks:
  "map_of (map (\<lambda>t. (os_path_join c [t], Dir)) ts) q =
     (if \<exists>t\<in>set ts. q = os_path_join c [t] then Some Dir else None)"
  by (induction ts) auto

lemma garage_car: "isdir (garage fs) Ferrari488"
  by (simp add: garage_def isdir_iff lookup_def Ferrari488_def)

lemma join_Ferrari488_neq_root [simp]: "os_path_join Ferrari488 (t # ts) \<noteq> [''Setups'']"
  by (simp add: os_path_join_def Ferrari488_def)

lemma garage_track: "t \<in> set ACC_TRACK_FOLDERS \<Longrightarrow> isdir (garage fs) (os_path_join Ferrari488 [t])"
  by (auto simp: garage_def isdir_iff lookup_def map_add_def map_of_tracks)

lemma garage_tracks: "\<forall>t\<in>set ACC_TRACK_FOLDERS. isdir (garage fs) (os_path_join Ferrari488 [t])"
  by (simp add: garage_track)

lemma garage_setup:
  "lookup (garage fs) (os_path_join Ferrari488 [t, n]) = map_of fs (os_path_join Ferrari488 [t, n])"
  by (simp add: garage_def lookup_def map_add_def map_of_tracks)

lemma classify_Ferrari488_track:
  "classify \<lparr>src_path = os_path_join Ferrari488 [t], is_directory = True\<rparr>
     = (os_path_join Ferrari488 [t], Ferrari488, t, ''Ferrari488'')"
  by (simp add: classify_def) (simp add: Ferrari488_def os_path_split_def)

lemma garage_no_squatter: "\<forall>t\<in>set ACC_TRACK_FOLDERS. \<not> isfile (garage fs) (os_path_join Ferrari488 [t])"
  using garage_tracks[of fs] by (auto simp: isdir_iff isfile_iff)

lemma Ferrari488_join: "Ferrari488 = os_path_join [''Setups''] [''Ferrari488'']"
  by (simp add: Ferrari488_def os_path_join_def)

lemma one_setup_wf: "wf_world one_setup"
  by (simp add: one_setup_def garage_def wf_world_def Ferrari488_def os_path_join_def ACC_TRACK_FOLDERS_def)

lemma one_setup_cars: "list_dir [''Setups''] False True one_setup = Inr [''Ferrari488'']"
  by (simp add: one_setup_def garage_def list_dir_def listdir_def lookup_def children_def isdir_def
      Ferrari488_def os_path_join_def ACC_TRACK_FOLDERS_def)

lemma one_setup_only:
  "\<forall>t\<in>set ACC_TRACK_FOLDERS. \<forall>n. isfile one_setup (os_path_join Ferrari488 [t, n]) \<longrightarrow> t = ''monza'' \<and> n = ''setup1.json''"
  by (simp add: one_setup_def isfile_iff garage_setup)

lemma one_setup_file: "lookup one_setup (os_path_join Ferrari488 [''monza'', ''setup1.json'']) = Some (File ''abc'')"
  by (simp add: one_setup_def garage_setup)

lemma one_setup_fresh:
  "\<forall>t\<in>set ACC_TRACK_FOLDERS. lookup one_setup (os_path_join Ferrari488 [t, ''monza-setup1.json'']) = None"
  by (simp add: one_setup_def garage_setup)

lemma one_setup_fresh2:
  "\<forall>t\<in>set ACC_TRACK_FOLDERS. \<forall>t'\<in>set ACC_TRACK_FOLDERS.
      lookup one_setup (os_path_join Ferrari488 [t', t @ ''-monza-setup1.json'']) = None"
proof -
  have "\<And>t. t @ ''-monza-setup1.json'' \<noteq> ''setup1.json''" by (rule longer_name_neq) simp
  then show ?thesis by (simp add: one_setup_def garage_setup)
qed

lemma one_setup_no_squatter: "\<forall>t\<in>set ACC_TRACK_FOLDERS. \<not> isfile one_setup (os_path_join Ferrari488 [t])"
  unfolding one_setup_def by (rule garage_no_squatter)

section \<open>The claims\<close>

text \<open>
  Claim C1 fails on the code. In a car with the fifteen track directories and the single
  setup \<^verbatim>\<open>monza/setup1.json\<close>, the directory-level event for \<^verbatim>\<open>monza\<close> reaches line 105
  for \<^verbatim>\<open>Barcelona\<close>, where the variable \<^verbatim>\<open>setupPath\<close> is read before any assignment:
  the handler ends with \<open>UnboundLocalError\<close>, the tree is as before, and \<^verbatim>\<open>Barcelona\<close> has
  no \<^verbatim>\<open>setup1.json\<close>.
\<close>

theorem directory_pass_copies_nothing:
  "on_modified \<lparr>src_path = os_path_join Ferrari488 [''monza''], is_directory = True\<rparr>
      (idle, garage [(os_path_join Ferrari488 [''monza'', ''setup1.json''], File ''abc'')])
    = (Inl UnboundLocalError, pause idle,
       garage [(os_path_join Ferrari488 [''monza'', ''setup1.json''], File ''abc'')])
   \<and> \<not> isfile (garage [(os_path_join Ferrari488 [''monza'', ''setup1.json''], File ''abc'')])
         (os_path_join Ferrari488 [''Barcelona'', ''setup1.json''])"
proof -
  let ?w = "garage [(os_path_join Ferrari488 [''monza'', ''setup1.json''], File ''abc'')]"
  have "on_modified \<lparr>src_path = os_path_join Ferrari488 [''monza''], is_directory = True\<rparr> (idle, ?w)
      = (Inl UnboundLocalError, pause idle, ?w)"
  proof (rule directory_pass_raises[OF _ classify_Ferrari488_track _ garage_tracks _ _ _ Barcelona_track])
    show "isdir ?w (os_path_join Ferrari488 [''monza''])" using monza_track by (rule garage_track)
    show "isfile ?w (os_path_join (os_path_join Ferrari488 [''monza'']) [''setup1.json''])"
      by (simp add: join_join isfile_iff garage_setup)
    show "\<forall>t\<in>set ACC_TRACK_FOLDERS. t \<noteq> ''monza'' \<longrightarrow>
        \<not> isfile ?w (os_path_join Ferrari488 [t, ''setup1.json''])"
      by (simp add: isfile_iff garage_setup)
  qed simp_all
  moreover have "\<not> isfile ?w (os_path_join Ferrari488 [''Barcelona'', ''setup1.json''])"
    by (simp add: isfile_iff garage_setup)
  ultimately show ?thesis by simp
qed

text \<open>
  Claim C2 fails on the code. A single-file event arrives for a file that is gone by the
  time the handler copies it: \<^verbatim>\<open>shutil.copyfile\<close> raises \<open>FileNotFoundError\<close> inside the
  \<^verbatim>\<open>with\<close> block, \<^verbatim>\<open>resume\<close> does not run, and the observer is left paused.
\<close>

theorem observer_stays_paused_after_error:
  "on_modified \<lparr>src_path = os_path_join Ferrari488 [''monza'', ''setup1.json''], is_directory = False\<rparr>
      (idle, garage [])
    = (Inl FileNotFoundError, \<lparr>is_paused = True, event_queue = []\<rparr>, garage [])"
proof -
  let ?ev = "\<lparr>src_path = os_path_join Ferrari488 [''monza'', ''setup1.json''], is_directory = False\<rparr>"
  let ?src = "os_path_join Ferrari488 [''monza'', ''setup1.json'']"
  have cl: "classify ?ev = (os_path_join Ferrari488 [''monza''], Ferrari488, ''monza'', ''Ferrari488'')"
    by (simp add: classify_def) (simp add: Ferrari488_def os_path_split_def)
  have cr: "create_track_dirs Ferrari488 (garage []) = (Inr (), garage [])"
    using garage_tracks by (rule create_track_dirs_noop)
  have gone: "lookup (garage []) ?src = None" by (simp add: garage_setup)
  have cp: "\<And>dst. shutil_copyfile ?src dst (garage []) = (Inl FileNotFoundError, garage [])"
    using gone by (simp add: shutil_copyfile_def exists_path_def)
  have "copy_changes Ferrari488 ''monza'' ?src ''setup1.json'' (garage []) = (Inl FileNotFoundError, garage [])"
    unfolding copy_changes_def
  proof (rule for_each_raises)
    show "\<exists>x\<in>set ACC_TRACK_FOLDERS. (if x = ''monza'' then (Inr (), garage [])
        else shutil_copyfile ?src (os_path_join Ferrari488 [x, ''setup1.json'']) (garage []))
        = (Inl FileNotFoundError, garage [])"
      using Barcelona_track by (intro bexI[of _ "''Barcelona''"]) (simp_all add: cp)
  qed (simp add: cp)
  then have "on_modified_block ?ev (garage []) = (Inl FileNotFoundError, garage [])"
    using cl cr by (simp add: on_modified_block_def)
  then have "on_modified ?ev (idle, garage []) = (Inl FileNotFoundError, pause idle, garage [])"
    unfolding on_modified_def by (rule ignore_events_raises)
  then show ?thesis by (simp add: pause_def idle_def)
qed

text \<open>
  Claim C3. A single-file event clobbers. The event is for an existing file
  \<open>setupName\<close> of track \<open>trackName\<close> in a car directory that exists and whose name is not
  the reserved \<^verbatim>\<open>Setups\<close>; no known track name is taken by a regular file in the car
  directory, and in no known track is \<open>setupName\<close> the name of a directory. Then the handler
  returns normally, the observer is resumed, and in every known track other than
  \<open>trackName\<close> the file \<open>setupName\<close> has exactly the bytes of the source, whatever was
  there before; the source keeps its bytes.
\<close>

theorem single_file_event_clobbers:
  assumes "\<not> is_directory ev"
    and "src_path ev = os_path_join carDir [trackName, setupName]"
    and "snd (os_path_split carDir) \<noteq> ''Setups''"
    and "lookup w (src_path ev) = Some (File b)"
    and "isdir w carDir"
    and "\<forall>t\<in>set ACC_TRACK_FOLDERS. \<not> isfile w (os_path_join carDir [t])"
    and "\<forall>t\<in>set ACC_TRACK_FOLDERS. \<not> isdir w (os_path_join carDir [t, setupName])"
  shows "\<exists>w'. on_modified ev (ob, w) = (Inr (), resume (pause ob), w')
      \<and> (\<forall>t\<in>set ACC_TRACK_FOLDERS. t \<noteq> trackName \<longrightarrow>
            lookup w' (os_path_join carDir [t, setupName]) = Some (File b))
      \<and> lookup w' (src_path ev) = Some (File b)"
proof -
  obtain u carName where sp: "os_path_split carDir = (u, carName)" by (cases "os_path_split carDir")
  with assms(3) have cn: "carName \<noteq> ''Setups''" by simp
  have cl: "classify ev = (os_path_join carDir [trackName], carDir, trackName, carName)"
    using assms(1,2) sp by (simp add: classify_def)
  from create_track_dirs_ok[OF assms(5,6)] obtain w1 where
    cr: "create_track_dirs carDir w = (Inr (), w1)"
    and d: "\<forall>t\<in>set ACC_TRACK_FOLDERS. isdir w1 (os_path_join carDir [t])"
    and f: "\<forall>q. (\<forall>t\<in>set ACC_TRACK_FOLDERS. q \<noteq> os_path_join carDir [t]) \<longrightarrow> lookup w1 q = lookup w q"
    by blast
  have src1: "lookup w1 (src_path ev) = Some (File b)"
    using f assms(2,4) by simp
  have n1: "\<forall>t\<in>set ACC_TRACK_FOLDERS. \<not> isdir w1 (os_path_join carDir [t, setupName])"
    using f assms(7) by (simp add: isdir_iff)
  from copy_changes_ok[OF src1 assms(2) d n1] obtain w2 where
    run: "copy_changes carDir trackName (src_path ev) setupName w1 = (Inr (), w2)"
    and c: "\<forall>t\<in>set ACC_TRACK_FOLDERS. t \<noteq> trackName \<longrightarrow> lookup w2 (os_path_join carDir [t, setupName]) = Some (File b)"
    and s2: "lookup w2 (src_path ev) = Some (File b)"
    unfolding copy_changes_def by blast
  have "on_modified_block ev w = (Inr (), w2)"
    using cl cn cr run assms(1,2) by (simp add: on_modified_block_def)
  then have "on_modified ev (ob, w) = (Inr (), resume (pause ob), w2)"
    by (simp add: on_modified_def ignore_events_def)
  with c s2 show ?thesis by (intro exI[of _ w2] conjI)
qed

theorem single_file_event_clobbers_witness:
  "\<exists>w'. on_modified \<lparr>src_path = os_path_join Ferrari488 [''monza'', ''setup1.json''], is_directory = False\<rparr>
      (idle, garage [(os_path_join Ferrari488 [''monza'', ''setup1.json''], File ''new''),
                     (os_path_join Ferrari488 [''Spa'', ''setup1.json''], File ''old'')])
      = (Inr (), idle, w')
    \<and> lookup w' (os_path_join Ferrari488 [''Spa'', ''setup1.json'']) = Some (File ''new'')"
proof -
  let ?w = "garage [(os_path_join Ferrari488 [''monza'', ''setup1.json''], File ''new''),
                     (os_path_join Ferrari488 [''Spa'', ''setup1.json''], File ''old'')]"
  let ?ev = "\<lparr>src_path = os_path_join Ferrari488 [''monza'', ''setup1.json''], is_directory = False\<rparr>"
  have h1: "\<not> is_directory ?ev" by simp
  have h2: "src_path ?ev = os_path_join Ferrari488 [''monza'', ''setup1.json'']" by simp
  have h3: "snd (os_path_split Ferrari488) \<noteq> ''Setups''"
    by (simp add: Ferrari488_def os_path_split_def)
  have h4: "lookup ?w (src_path ?ev) = Some (File ''new'')" by (simp add: garage_setup)
  have h5: "isdir ?w Ferrari488" by (rule garage_car)
  have h6: "\<forall>t\<in>set ACC_TRACK_FOLDERS. \<not> isfile ?w (os_path_join Ferrari488 [t])"
    by (rule garage_no_squatter)
  have h7: "\<forall>t\<in>set ACC_TRACK_FOLDERS. \<not> isdir ?w (os_path_join Ferrari488 [t, ''setup1.json''])"
    by (simp add: isdir_iff garage_setup)
  from single_file_event_clobbers[OF h1 h2 h3 h4 h5 h6 h7, of idle] obtain w' where
    "on_modified ?ev (idle, ?w) = (Inr (), resume (pause idle), w')"
    "\<forall>t\<in>set ACC_TRACK_FOLDERS. t \<noteq> ''monza'' \<longrightarrow>
            lookup w' (os_path_join Ferrari488 [t, ''setup1.json'']) = Some (File ''new'')"
    by blast
  then show ?thesis using Spa_track by (intro exI[of _ w']) (simp add: resume_def pause_def idle_def)
qed

text \<open>
  Claim C4. A directory-level pass never overwrites. When the source track has a file named
  \<open>setup\<close> and a track directory of the same car already holds a file of that name, that
  file has the same bytes after the handler ran, whether the pass ended normally or with
  an exception.
\<close>

theorem directory_pass_keeps_existing_files:
  assumes "is_directory ev"
    and "classify ev = (trackDir, carDir, trackName, carName)"
    and "isfile w (os_path_join trackDir [setup])"
    and "lookup w (os_path_join carDir [track, setup]) = Some (File b)"
  shows "lookup (snd (snd (on_modified ev (ob, w)))) (os_path_join carDir [track, setup]) = Some (File b)"
proof -
  let ?q = "os_path_join carDir [track, setup]"
  from assms(3) obtain b' where src: "lookup w (os_path_join trackDir [setup]) = Some (File b')"
    by (auto simp: isfile_iff)
  have "lookup (snd (on_modified_block ev w)) ?q = Some (File b)"
  proof (cases "carName = ''Setups''")
    case True
    with assms show ?thesis by (simp add: on_modified_block_def)
  next
    case False
    obtain r w1 where c: "create_track_dirs carDir w = (r, w1)" by (cases "create_track_dirs carDir w")
    have q1: "lookup w1 ?q = Some (File b)"
      using create_track_dirs_keeps[OF assms(4), of carDir] c by simp
    have src1: "lookup w1 (os_path_join trackDir [setup]) = Some (File b')"
      using create_track_dirs_keeps[OF src, of carDir] c by simp
    show ?thesis
    proof (cases r)
      case (Inl e)
      with False c q1 assms(1,2) show ?thesis by (simp add: on_modified_block_def)
    next
      case (Inr u)
      show ?thesis
      proof (cases "list_dir trackDir True False w1")
        case (Inl e)
        with False c q1 assms(1,2) Inr show ?thesis by (simp add: on_modified_block_def)
      next
        case (Inr setups)
        have "setup \<in> set setups"
          using list_dir_files_set[OF Inr] src1 by (auto simp: isfile_iff)
        then have "\<And>t s. s \<notin> set setups \<Longrightarrow> ?q \<noteq> os_path_join (os_path_join carDir [t]) [s]"
          by (auto simp: os_path_join_def)
        with q1 have "lookup (snd (sync_tracks carDir trackName None setups w1)) ?q = Some (File b)"
          by (rule sync_tracks_keeps)
        with False c assms(1,2) Inr \<open>r = Inr u\<close> show ?thesis by (simp add: on_modified_block_def)
      qed
    qed
  qed
  then show ?thesis by (simp add: on_modified_world)
qed

theorem directory_pass_keeps_existing_files_witness:
  "lookup (snd (snd (on_modified \<lparr>src_path = os_path_join Ferrari488 [''monza''], is_directory = True\<rparr>
      (idle, garage [(os_path_join Ferrari488 [''monza'', ''setup1.json''], File ''new''),
                     (os_path_join Ferrari488 [''Spa'', ''setup1.json''], File ''old'')]))))
     (os_path_join Ferrari488 [''Spa'', ''setup1.json'']) = Some (File ''old'')"
proof -
  let ?w = "garage [(os_path_join Ferrari488 [''monza'', ''setup1.json''], File ''new''),
                     (os_path_join Ferrari488 [''Spa'', ''setup1.json''], File ''old'')]"
  let ?ev = "\<lparr>src_path = os_path_join Ferrari488 [''monza''], is_directory = True\<rparr>"
  have d: "is_directory ?ev" by simp
  have c: "classify ?ev = (os_path_join Ferrari488 [''monza''], Ferrari488, ''monza'', ''Ferrari488'')"
    by (simp add: classify_def Ferrari488_def os_path_split_def os_path_join_def)
  have s: "isfile ?w (os_path_join (os_path_join Ferrari488 [''monza'']) [''setup1.json''])"
    using garage_setup[of _ "''monza''" "''setup1.json''"]
    by (simp add: isfile_iff os_path_join_def)
  have t: "lookup ?w (os_path_join Ferrari488 [''Spa'', ''setup1.json'']) = Some (File ''old'')"
    by (simp add: garage_setup)
  show ?thesis using d c s t by (rule directory_pass_keeps_existing_files)
qed

text \<open>
  Claim C5 fails on the code. \<^verbatim>\<open>monza\<close> holds \<^verbatim>\<open>keep.json\<close> and no longer
  \<^verbatim>\<open>gone.json\<close>, which \<^verbatim>\<open>Barcelona\<close> still holds. The directory-level event for
  \<^verbatim>\<open>monza\<close> ends with \<open>UnboundLocalError\<close> at the copy of \<^verbatim>\<open>keep.json\<close> to
  \<^verbatim>\<open>Barcelona\<close>, before line 115 is reached for any track: \<^verbatim>\<open>Barcelona/gone.json\<close>
  is still there.
\<close>

theorem directory_pass_misses_deletion:
  "on_modified \<lparr>src_path = os_path_join Ferrari488 [''monza''], is_directory = True\<rparr>
      (idle, garage [(os_path_join Ferrari488 [''monza'', ''keep.json''], File ''k''),
                     (os_path_join Ferrari488 [''Barcelona'', ''gone.json''], File ''g'')])
    = (Inl UnboundLocalError, pause idle,
       garage [(os_path_join Ferrari488 [''monza'', ''keep.json''], File ''k''),
               (os_path_join Ferrari488 [''Barcelona'', ''gone.json''], File ''g'')])
   \<and> \<not> isfile (garage [(os_path_join Ferrari488 [''monza'', ''keep.json''], File ''k''),
               (os_path_join Ferrari488 [''Barcelona'', ''gone.json''], File ''g'')])
         (os_path_join Ferrari488 [''monza'', ''gone.json''])
   \<and> isfile (garage [(os_path_join Ferrari488 [''monza'', ''keep.json''], File ''k''),
               (os_path_join Ferrari488 [''Barcelona'', ''gone.json''], File ''g'')])
         (os_path_join Ferrari488 [''Barcelona'', ''gone.json''])"
proof -
  let ?w = "garage [(os_path_join Ferrari488 [''monza'', ''keep.json''], File ''k''),
                     (os_path_join Ferrari488 [''Barcelona'', ''gone.json''], File ''g'')]"
  have "on_modified \<lparr>src_path = os_path_join Ferrari488 [''monza''], is_directory = True\<rparr> (idle, ?w)
      = (Inl UnboundLocalError, pause idle, ?w)"
  proof (rule directory_pass_raises[OF _ classify_Ferrari488_track _ garage_tracks _ _ _ Barcelona_track])
    show "isdir ?w (os_path_join Ferrari488 [''monza''])" using monza_track by (rule garage_track)
    show "isfile ?w (os_path_join (os_path_join Ferrari488 [''monza'']) [''keep.json''])"
      by (simp add: join_join isfile_iff garage_setup)
    show "\<forall>t\<in>set ACC_TRACK_FOLDERS. t \<noteq> ''monza'' \<longrightarrow>
        \<not> isfile ?w (os_path_join Ferrari488 [t, ''keep.json''])"
      by (simp add: isfile_iff garage_setup)
  qed simp_all
  moreover have "\<not> isfile ?w (os_path_join Ferrari488 [''monza'', ''gone.json''])"
    by (simp add: isfile_iff garage_setup)
  moreover have "isfile ?w (os_path_join Ferrari488 [''Barcelona'', ''gone.json''])"
    by (simp add: isfile_iff garage_setup)
  ultimately show ?thesis by simp
qed

text \<open>
  Claim C6. An event whose car segment is the reserved name \<^verbatim>\<open>Setups\<close> is discarded: the
  handler returns normally and the tree and the journal are as before, so no directory
  was created and no file was copied or removed. The observer was paused and resumed.
\<close>

theorem on_modified_Setups_no_operation:
  assumes "classify ev = (trackDir, carDir, trackName, ''Setups'')"
  shows "on_modified ev (ob, w) = (Inr (), resume (pause ob), w)"
  using assms by (simp add: on_modified_def ignore_events_def on_modified_block_def)

theorem on_modified_Setups_no_operation_witness:
  "on_modified \<lparr>src_path = Ferrari488, is_directory = True\<rparr> (idle, new_car)
     = (Inr (), idle, new_car)"
proof -
  have c: "classify \<lparr>src_path = Ferrari488, is_directory = True\<rparr> = (Ferrari488, [''Setups''], ''Ferrari488'', ''Setups'')"
    by (simp add: classify_def Ferrari488_def os_path_split_def)
  show ?thesis
    using on_modified_Setups_no_operation[OF c, of idle new_car]
    by (simp add: resume_def pause_def idle_def)
qed

text \<open>
  Claim C8. The Directory Ensurer is idempotent. For a car directory that exists and in
  which no known track name is taken by a regular file, \<open>create_track_dirs\<close> returns
  normally, afterwards each of the fifteen known track subdirectories exists, and a second
  run returns normally with the same tree and the same journal: it creates no directory
  and changes nothing.
\<close>

theorem create_track_dirs_idempotent:
  assumes "isdir w carDir" "\<forall>t\<in>set ACC_TRACK_FOLDERS. \<not> isfile w (os_path_join carDir [t])"
  shows "\<exists>w'. create_track_dirs carDir w = (Inr (), w')
      \<and> (\<forall>t\<in>set ACC_TRACK_FOLDERS. isdir w' (os_path_join carDir [t]))
      \<and> create_track_dirs carDir w' = (Inr (), w')"
proof -
  from create_track_dirs_ok[OF assms] obtain w' where
    "create_track_dirs carDir w = (Inr (), w')" "\<forall>t\<in>set ACC_TRACK_FOLDERS. isdir w' (os_path_join carDir [t])"
    by blast
  then show ?thesis using create_track_dirs_noop[of w' carDir] by (intro exI[of _ w']) simp
qed

theorem create_track_dirs_idempotent_witness:
  "\<exists>w'. create_track_dirs Ferrari488 new_car = (Inr (), w')
      \<and> (\<forall>t\<in>set ACC_TRACK_FOLDERS. isdir w' (os_path_join Ferrari488 [t]))
      \<and> create_track_dirs Ferrari488 w' = (Inr (), w')"
proof -
  have d: "isdir new_car Ferrari488"
    by (simp add: new_car_def isdir_iff lookup_def Ferrari488_def)
  have f: "\<forall>t\<in>set ACC_TRACK_FOLDERS. \<not> isfile new_car (os_path_join Ferrari488 [t])"
    by (simp add: new_car_def isfile_iff lookup_def Ferrari488_def os_path_join_def)
  show ?thesis using d f by (rule create_track_dirs_idempotent)
qed

text \<open>
  Claim C9. The setups folder has one car directory; the only setup file in that car's
  track directories is \<^verbatim>\<open>monza/setup1.json\<close>, with bytes \<open>b\<close>; no track name is taken by a
  regular file and no track holds an entry named \<^verbatim>\<open>monza-setup1.json\<close>. Then \<open>init\<close>
  returns normally; afterwards every one of the fifteen tracks, \<^verbatim>\<open>monza\<close> included, holds
  \<^verbatim>\<open>monza-setup1.json\<close> with the bytes \<open>b\<close>, and that is the only setup file of each
  track: in \<^verbatim>\<open>monza\<close> the file was renamed, the name \<^verbatim>\<open>setup1.json\<close> is gone.
\<close>

theorem init_single_setup_fans_out:
  assumes "wf_world w"
    and "list_dir setupsPath False True w = Inr [car]"
    and "carPath = os_path_join setupsPath [car]"
    and "\<forall>t\<in>set ACC_TRACK_FOLDERS. \<not> isfile w (os_path_join carPath [t])"
    and "\<forall>t\<in>set ACC_TRACK_FOLDERS. \<forall>n. isfile w (os_path_join carPath [t, n]) \<longrightarrow> t = ''monza'' \<and> n = ''setup1.json''"
    and "lookup w (os_path_join carPath [''monza'', ''setup1.json'']) = Some (File b)"
    and "\<forall>t\<in>set ACC_TRACK_FOLDERS. lookup w (os_path_join carPath [t, ''monza-setup1.json'']) = None"
  shows "\<exists>w'. init setupsPath w = (Inr (), w')
     \<and> (\<forall>t\<in>set ACC_TRACK_FOLDERS. lookup w' (os_path_join carPath [t, ''monza-setup1.json'']) = Some (File b))
     \<and> (\<forall>t\<in>set ACC_TRACK_FOLDERS. \<forall>n. isfile w' (os_path_join carPath [t, n]) \<longleftrightarrow> n = ''monza-setup1.json'')"
proof -
  from init_single_setup[OF assms] obtain w' where
    i: "init setupsPath w = (Inr (), w')"
    and c1: "\<forall>t\<in>set ACC_TRACK_FOLDERS. lookup w' (os_path_join carPath [t, ''monza-setup1.json'']) = Some (File b)"
    and c2: "\<forall>t\<in>set ACC_TRACK_FOLDERS. \<forall>n. isfile w' (os_path_join carPath [t, n]) \<longrightarrow> n = ''monza-setup1.json''"
    by blast
  have "\<forall>t\<in>set ACC_TRACK_FOLDERS. \<forall>n. isfile w' (os_path_join carPath [t, n]) \<longleftrightarrow> n = ''monza-setup1.json''"
  proof (intro ballI allI iffI)
    fix t n assume "t \<in> set ACC_TRACK_FOLDERS" "isfile w' (os_path_join carPath [t, n])"
    with c2 show "n = ''monza-setup1.json''" by blast
  next
    fix t n assume "t \<in> set ACC_TRACK_FOLDERS" "n = ''monza-setup1.json''"
    with c1 show "isfile w' (os_path_join carPath [t, n])" by (simp add: isfile_iff)
  qed
  with i c1 show ?thesis by (intro exI[of _ w'] conjI)
qed

theorem init_single_setup_fans_out_witness:
  "\<exists>w'. init [''Setups''] one_setup = (Inr (), w')
     \<and> lookup w' (os_path_join Ferrari488 [''Spa'', ''monza-setup1.json'']) = Some (File ''abc'')
     \<and> isfile w' (os_path_join Ferrari488 [''monza'', ''monza-setup1.json''])
     \<and> \<not> isfile w' (os_path_join Ferrari488 [''monza'', ''setup1.json''])"
proof -
  from init_single_setup_fans_out[OF one_setup_wf one_setup_cars Ferrari488_join one_setup_no_squatter
      one_setup_only one_setup_file one_setup_fresh]
  obtain w' where i: "init [''Setups''] one_setup = (Inr (), w')"
    and c1: "\<forall>t\<in>set ACC_TRACK_FOLDERS. lookup w' (os_path_join Ferrari488 [t, ''monza-setup1.json'']) = Some (File ''abc'')"
    and c2: "\<forall>t\<in>set ACC_TRACK_FOLDERS. \<forall>n. isfile w' (os_path_join Ferrari488 [t, n]) \<longleftrightarrow> n = ''monza-setup1.json''"
    by blast
  have a: "lookup w' (os_path_join Ferrari488 [''Spa'', ''monza-setup1.json'']) = Some (File ''abc'')"
    using c1 Spa_track by blast
  have b: "isfile w' (os_path_join Ferrari488 [''monza'', ''monza-setup1.json''])"
    using c2 monza_track by blast
  have c: "\<not> isfile w' (os_path_join Ferrari488 [''monza'', ''setup1.json''])"
    using c2 monza_track by auto
  show ?thesis by (intro exI[of _ w'] conjI i a b c)
qed

text \<open>
  Claim C10. The initializer is not idempotent: the rename step prefixes whatever file it
  finds. From the tree of claim C9 (in which, further, no track holds an entry whose name
  is a track name followed by \<^verbatim>\<open>-monza-setup1.json\<close>) both runs of \<open>init\<close> return. The first
  run leaves \<^verbatim>\<open>monza/monza-setup1.json\<close>; the second run renames it again: afterwards no
  track holds \<^verbatim>\<open>monza-setup1.json\<close>, \<^verbatim>\<open>monza\<close> holds \<^verbatim>\<open>monza-monza-setup1.json\<close>, and every
  track holds, for every track \<open>t\<close>, the file \<open>t\<close>\<^verbatim>\<open>-monza-setup1.json\<close> with the bytes
  \<open>b\<close>. The tree after the second run differs from the tree after the first.
\<close>

theorem init_twice_renames_again:
  assumes "wf_world w"
    and "list_dir setupsPath False True w = Inr [car]"
    and "carPath = os_path_join setupsPath [car]"
    and "\<forall>t\<in>set ACC_TRACK_FOLDERS. \<not> isfile w (os_path_join carPath [t])"
    and "\<forall>t\<in>set ACC_TRACK_FOLDERS. \<forall>n. isfile w (os_path_join carPath [t, n]) \<longrightarrow> t = ''monza'' \<and> n = ''setup1.json''"
    and "lookup w (os_path_join carPath [''monza'', ''setup1.json'']) = Some (File b)"
    and "\<forall>t\<in>set ACC_TRACK_FOLDERS. lookup w (os_path_join carPath [t, ''monza-setup1.json'']) = None"
    and fresh2: "\<forall>t\<in>set ACC_TRACK_FOLDERS. \<forall>t'\<in>set ACC_TRACK_FOLDERS.
          lookup w (os_path_join carPath [t', t @ ''-monza-setup1.json'']) = None"
  shows "\<exists>w1 w2. init setupsPath w = (Inr (), w1) \<and> init setupsPath w1 = (Inr (), w2)
     \<and> lookup w1 (os_path_join carPath [''monza'', ''monza-setup1.json'']) = Some (File b)
     \<and> lookup w2 (os_path_join carPath [''monza'', ''monza-setup1.json'']) = None
     \<and> lookup w2 (os_path_join carPath [''monza'', ''monza-monza-setup1.json'']) = Some (File b)
     \<and> (\<forall>t\<in>set ACC_TRACK_FOLDERS. \<forall>t'\<in>set ACC_TRACK_FOLDERS.
           lookup w2 (os_path_join carPath [t', t @ ''-monza-setup1.json'']) = Some (File b))
     \<and> (\<forall>t\<in>set ACC_TRACK_FOLDERS. lookup w2 (os_path_join carPath [t, ''monza-setup1.json'']) = None)
     \<and> w2 \<noteq> w1"
proof -
  let ?T = "set ACC_TRACK_FOLDERS"
  let ?m = "''monza-setup1.json''"
  from init_single_setup[OF assms(1-7)] obtain w1 where
    i1: "init setupsPath w = (Inr (), w1)" and wf1: "wf_world w1"
    and ld1: "list_dir setupsPath False True w1 = Inr [car]"
    and d1: "\<forall>t\<in>?T. isdir w1 (os_path_join carPath [t])"
    and c1: "\<forall>t\<in>?T. lookup w1 (os_path_join carPath [t, ?m]) = Some (File b)"
    and c2: "\<forall>t\<in>?T. \<forall>n. isfile w1 (os_path_join carPath [t, n]) \<longrightarrow> n = ?m"
    and c3: "\<forall>q. (\<forall>t\<in>?T. q \<noteq> os_path_join carPath [t] \<and> q \<noteq> os_path_join carPath [t, ?m])
             \<and> q \<noteq> os_path_join carPath [''monza'', ''setup1.json''] \<longrightarrow> lookup w1 q = lookup w q"
    by blast
  have car1: "isdir w1 carPath" unfolding assms(3) using ld1 by (rule list_dir_dirs_member) simp
  have nosquat1: "\<forall>t\<in>?T. \<not> isfile w1 (os_path_join carPath [t])"
    using d1 by (auto simp: isdir_iff isfile_iff)
  have n1: "\<And>t. t @ ''-monza-setup1.json'' \<noteq> ?m" by (rule longer_name_neq) simp
  have n2: "\<And>t. t @ ''-monza-setup1.json'' \<noteq> ''setup1.json''" by (rule longer_name_neq) simp
  have free1: "\<And>t t'. t \<in> ?T \<Longrightarrow> t' \<in> ?T \<Longrightarrow> lookup w1 (os_path_join carPath [t', t @ ''-monza-setup1.json'']) = None"
  proof -
    fix t t' assume t: "t \<in> ?T" and t': "t' \<in> ?T"
    let ?q = "os_path_join carPath [t', t @ ''-monza-setup1.json'']"
    have "(\<forall>t''\<in>?T. ?q \<noteq> os_path_join carPath [t''] \<and> ?q \<noteq> os_path_join carPath [t'', ?m])
             \<and> ?q \<noteq> os_path_join carPath [''monza'', ''setup1.json'']"
      using n1[of t] n2[of t] by simp
    with c3 have "lookup w1 ?q = lookup w ?q" by blast
    with fresh2 t t' show "lookup w1 ?q = None" by simp
  qed
  have fresh1: "\<forall>t\<in>?T. \<forall>n. isfile w1 (os_path_join carPath [t, n]) \<longrightarrow>
        (\<forall>t'\<in>?T. lookup w1 (os_path_join carPath [t', t @ ''-'' @ n]) = None)"
  proof (intro ballI allI impI)
    fix t n t' assume t: "t \<in> ?T" and f: "isfile w1 (os_path_join carPath [t, n])" and t': "t' \<in> ?T"
    from c2 t f have "n = ?m" by blast
    then show "lookup w1 (os_path_join carPath [t', t @ ''-'' @ n]) = None"
      using free1[OF t t'] by simp
  qed
  from init_car_ok[OF wf1 assms(3) car1 nosquat1 fresh1] obtain w2 where
    run: "init_car setupsPath car w1 = (Inr (), w2)"
    and e1: "\<forall>t\<in>?T. \<forall>n. isfile w1 (os_path_join carPath [t, n]) \<longrightarrow>
           (\<forall>t'\<in>?T. lookup w2 (os_path_join carPath [t', t @ ''-'' @ n]) = lookup w1 (os_path_join carPath [t, n]))"
    and e2: "\<forall>t\<in>?T. \<forall>n. isfile w1 (os_path_join carPath [t, n]) \<longrightarrow> lookup w2 (os_path_join carPath [t, n]) = None"
    by blast
  have i2: "init setupsPath w1 = (Inr (), w2)" using ld1 run by (rule init_one_car)
  have f1: "\<And>t. t \<in> ?T \<Longrightarrow> isfile w1 (os_path_join carPath [t, ?m])"
    using c1 by (simp add: isfile_iff)
  have r1: "\<forall>t\<in>?T. \<forall>t'\<in>?T. lookup w2 (os_path_join carPath [t', t @ ''-monza-setup1.json'']) = Some (File b)"
  proof (intro ballI)
    fix t t' assume t: "t \<in> ?T" and t': "t' \<in> ?T"
    from e1 t f1[OF t] t' have "lookup w2 (os_path_join carPath [t', t @ ''-'' @ ?m]) = lookup w1 (os_path_join carPath [t, ?m])"
      by blast
    with c1 t show "lookup w2 (os_path_join carPath [t', t @ ''-monza-setup1.json'']) = Some (File b)" by simp
  qed
  have r2: "\<forall>t\<in>?T. lookup w2 (os_path_join carPath [t, ?m]) = None"
    using e2 f1 by blast
  have monza: "''monza'' \<in> ?T" by (rule monza_track)
  have a: "lookup w1 (os_path_join carPath [''monza'', ?m]) = Some (File b)" using c1 monza by blast
  have b: "lookup w2 (os_path_join carPath [''monza'', ?m]) = None" using r2 monza by blast
  have c: "lookup w2 (os_path_join carPath [''monza'', ''monza-monza-setup1.json'']) = Some (File b)"
    using r1 monza by fastforce
  have d: "w2 \<noteq> w1" using a b by auto
  show ?thesis by (intro exI[of _ w1] exI[of _ w2] conjI i1 i2 a b c r1 r2 d)
qed

theorem init_twice_renames_again_witness:
  "\<exists>w1 w2. init [''Setups''] one_setup = (Inr (), w1) \<and> init [''Setups''] w1 = (Inr (), w2)
     \<and> lookup w1 (os_path_join Ferrari488 [''monza'', ''monza-setup1.json'']) = Some (File ''abc'')
     \<and> lookup w2 (os_path_join Ferrari488 [''monza'', ''monza-setup1.json'']) = None
     \<and> lookup w2 (os_path_join Ferrari488 [''monza'', ''monza-monza-setup1.json'']) = Some (File ''abc'')
     \<and> lookup w2 (os_path_join Ferrari488 [''Spa'', ''monza-monza-setup1.json'']) = Some (File ''abc'')
     \<and> w2 \<noteq> w1"
proof -
  from init_twice_renames_again[OF one_setup_wf one_setup_cars Ferrari488_join one_setup_no_squatter
      one_setup_only one_setup_file one_setup_fresh one_setup_fresh2]
  obtain w1 w2 where i1: "init [''Setups''] one_setup = (Inr (), w1)" and i2: "init [''Setups''] w1 = (Inr (), w2)"
    and a: "lookup w1 (os_path_join Ferrari488 [''monza'', ''monza-setup1.json'']) = Some (File ''abc'')"
    and b: "lookup w2 (os_path_join Ferrari488 [''monza'', ''monza-setup1.json'']) = None"
    and c: "lookup w2 (os_path_join Ferrari488 [''monza'', ''monza-monza-setup1.json'']) = Some (File ''abc'')"
    and r: "\<forall>t\<in>set ACC_TRACK_FOLDERS. \<forall>t'\<in>set ACC_TRACK_FOLDERS.
           lookup w2 (os_path_join Ferrari488 [t', t @ ''-monza-setup1.json'']) = Some (File ''abc'')"
    and d: "w2 \<noteq> w1"
    by blast
  have e: "lookup w2 (os_path_join Ferrari488 [''Spa'', ''monza-monza-setup1.json'']) = Some (File ''abc'')"
    using r monza_track Spa_track by fastforce
  show ?thesis by (intro exI[of _ w1] exI[of _ w2] conjI i1 i2 a b c e d)
qed

end
